theory Spec2Isabelle
  imports Complex_Main "HOL-Library.Word" "HOL-Library.Monad_Syntax"
begin

unbundle bit_operations_syntax

section \<open>The chat widget's voice input: three script variants\<close>

text \<open>
  \<^verbatim>\<open>src/static/script_chat_survey.js\<close> holds three variants of the widget script:
  \<^item> lines 1-229: live speech-to-text that accumulates final results in \<^verbatim>\<open>liveTranscript\<close>
    (names suffixed \<open>_acc\<close> below);
  \<^item> lines 230-457: live speech-to-text guarded by the generation counter
    \<^verbatim>\<open>speechSessionId\<close> (names suffixed \<open>_live\<close>);
  \<^item> lines 458-727: raw PCM capture with a WAV preview and a Base64 upload
    (names suffixed \<open>_pcm\<close>).
  Each variant is embedded as functions on a record of the variables the script closes
  over. Names are the script's; a suffix is added only where variants share a name.
\<close>

subsection \<open>Bytes, typed arrays and the DataView\<close>

type_synonym byte = "8 word"
type_synonym int16 = "16 word"

text \<open>
  Little-endian byte images. \<^verbatim>\<open>DataView.setUint16/setInt16/setUint32(off, v, true)\<close> write
  them; a \<^verbatim>\<open>Uint8Array\<close> over the buffer of an \<^verbatim>\<open>Int16Array\<close> shows the same bytes on a
  little-endian host (typed arrays use the host's byte order; every platform the widget's
  browsers run on is little-endian, and the model fixes that order).
\<close>

definition le16 :: "16 word \<Rightarrow> byte list" where
  "le16 w = [ucast w, ucast (drop_bit 8 w)]"

definition le32 :: "32 word \<Rightarrow> byte list" where
  "le32 w = [ucast w, ucast (drop_bit 8 w), ucast (drop_bit 16 w), ucast (drop_bit 24 w)]"

text \<open>The matching reads (\<^verbatim>\<open>DataView.getInt16/getUint32(off, true)\<close>), used to decode.\<close>

definition getInt16 :: "byte \<Rightarrow> byte \<Rightarrow> int16" where
  "getInt16 b0 b1 = ucast b0 OR push_bit 8 (ucast b1)"

definition getUint32 :: "byte \<Rightarrow> byte \<Rightarrow> byte \<Rightarrow> byte \<Rightarrow> 32 word" where
  "getUint32 b0 b1 b2 b3 =
     ucast b0 OR push_bit 8 (ucast b1) OR push_bit 16 (ucast b2) OR push_bit 24 (ucast b3)"

fun decode_le16 :: "byte list \<Rightarrow> int16 list" where
  "decode_le16 (b0 # b1 # bs) = getInt16 b0 b1 # decode_le16 bs"
| "decode_le16 _ = []"

definition u32_at :: "nat \<Rightarrow> byte list \<Rightarrow> 32 word" where
  "u32_at off bs = getUint32 (bs ! off) (bs ! (off + 1)) (bs ! (off + 2)) (bs ! (off + 3))"

definition u16_at :: "nat \<Rightarrow> byte list \<Rightarrow> 16 word" where
  "u16_at off bs = getInt16 (bs ! off) (bs ! (off + 1))"

text \<open>
  \<^verbatim>\<open>new Uint8Array(pcm16.buffer)\<close>: the byte view of an \<^verbatim>\<open>Int16Array\<close>. The script never
  writes to either array after creating them, so the shared buffer is modelled by value.
\<close>

definition Uint8Array_of :: "int16 list \<Rightarrow> byte list" where
  "Uint8Array_of pcm16 = concat (map le16 pcm16)"

text \<open>
  \<^verbatim>\<open>target.set(source, offset)\<close> on a typed array: a \<^verbatim>\<open>RangeError\<close> (\<open>None\<close>) when the
  source does not fit. The DataView setters are the same write with 1, 2 or 4 bytes.
\<close>

definition store :: "byte list \<Rightarrow> nat \<Rightarrow> byte list \<Rightarrow> byte list option" where
  "store target offset source =
     (if offset + length source \<le> length target
      then Some (take offset target @ source @ drop (offset + length source) target)
      else None)"

definition setUint8 :: "byte list \<Rightarrow> nat \<Rightarrow> byte \<Rightarrow> byte list option" where
  "setUint8 view offset v = store view offset [v]"

definition setUint16 :: "byte list \<Rightarrow> nat \<Rightarrow> 16 word \<Rightarrow> byte list option" where
  "setUint16 view offset v = store view offset (le16 v)"

definition setInt16 :: "byte list \<Rightarrow> nat \<Rightarrow> int16 \<Rightarrow> byte list option" where
  "setInt16 view offset v = store view offset (le16 v)"

definition setUint32 :: "byte list \<Rightarrow> nat \<Rightarrow> 32 word \<Rightarrow> byte list option" where
  "setUint32 view offset v = store view offset (le32 v)"

subsection \<open>Sample conversion (\<^verbatim>\<open>processor.onaudioprocess\<close>, lines 572-582)\<close>

text \<open>
  A sample of the \<^verbatim>\<open>Float32Array\<close> is a dyadic rational with a 24-bit significand, so the
  clamp is exact and the product with \<^verbatim>\<open>0x7fff\<close> (15 bits) is exact in double precision:
  the arithmetic of line 577 is the arithmetic of \<^typ>\<open>rat\<close>. Storing a number into an
  \<^verbatim>\<open>Int16Array\<close> drops the fraction (towards zero) and wraps modulo \<open>2^16\<close>.
\<close>

definition trunc_toward_zero :: "rat \<Rightarrow> int" where
  "trunc_toward_zero y = (if 0 \<le> y then \<lfloor>y\<rfloor> else - \<lfloor>- y\<rfloor>)"

definition toInt16 :: "rat \<Rightarrow> int16" where
  "toInt16 y = word_of_int (trunc_toward_zero y)"

definition pcm16_sample :: "rat \<Rightarrow> int16" where
  "pcm16_sample x = toInt16 (max (- 1) (min 1 x) * 0x7fff)"

text \<open>
  The conversion as the specification's section 4.2 words it, stated without the code's
  arithmetic: \<open>r\<close> is \<open>y\<close> truncated toward zero when it is the integer of the same sign
  as \<open>y\<close> whose magnitude is at most that of \<open>y\<close> and less than one below it; \<open>r\<close> is the
  saturate-and-round value of the sample \<open>x\<close> when it is a signed 16-bit integer and is
  \<open>clamp(x, -1, 1) * 32767\<close> truncated toward zero.
\<close>

definition truncated_toward_zero :: "rat \<Rightarrow> int \<Rightarrow> bool" where
  "truncated_toward_zero y r =
     (\<bar>of_int r\<bar> \<le> \<bar>y\<bar> \<and> \<bar>y\<bar> < \<bar>of_int r\<bar> + 1 \<and> 0 \<le> of_int r * y)"

definition saturate_and_round :: "rat \<Rightarrow> int \<Rightarrow> bool" where
  "saturate_and_round x r =
     (- 32768 \<le> r \<and> r \<le> 32767 \<and> truncated_toward_zero (max (- 1) (min 1 x) * 32767) r)"

subsection \<open>The WAV helper (\<^verbatim>\<open>createWavBlob\<close>, lines 678-711)\<close>

text \<open>The writer state is the DataView's buffer and the running \<^verbatim>\<open>offset\<close>.\<close>

type_synonym writer = "byte list \<times> nat"

fun writeString :: "string \<Rightarrow> writer \<Rightarrow> writer option" where
  "writeString [] (view, offset) = Some (view, offset)"
| "writeString (c # s) (view, offset) =
     (case setUint8 view offset (of_char c) of
        None \<Rightarrow> None
      | Some view' \<Rightarrow> writeString s (view', offset + 1))"

definition putUint32 :: "nat \<Rightarrow> writer \<Rightarrow> writer option" where
  "putUint32 n = (\<lambda>(view, offset).
     map_option (\<lambda>view'. (view', offset + 4)) (setUint32 view offset (of_nat n)))"

definition putUint16 :: "nat \<Rightarrow> writer \<Rightarrow> writer option" where
  "putUint16 n = (\<lambda>(view, offset).
     map_option (\<lambda>view'. (view', offset + 2)) (setUint16 view offset (of_nat n)))"

fun write_samples :: "int16 list \<Rightarrow> writer \<Rightarrow> writer option" where
  "write_samples [] (view, offset) = Some (view, offset)"
| "write_samples (sample # chunk) (view, offset) =
     (case setInt16 view offset sample of
        None \<Rightarrow> None
      | Some view' \<Rightarrow> write_samples chunk (view', offset + 2))"

fun write_chunks :: "int16 list list \<Rightarrow> writer \<Rightarrow> writer option" where
  "write_chunks [] w = Some w"
| "write_chunks (chunk # chunks) w =
     (case write_samples chunk w of
        None \<Rightarrow> None
      | Some w' \<Rightarrow> write_chunks chunks w')"

definition createWavBlob :: "int16 list list \<Rightarrow> nat \<Rightarrow> byte list option" where
  "createWavBlob chunks sampleRate =
     (let bufferLength = sum_list (map length chunks);
          view = replicate (44 + bufferLength * 2) (0 :: byte)
      in map_option fst
          (Some (view, 0)
            \<bind> writeString ''RIFF''
            \<bind> putUint32 (36 + bufferLength * 2)
            \<bind> writeString ''WAVEfmt ''
            \<bind> putUint32 16
            \<bind> putUint16 1
            \<bind> putUint16 1
            \<bind> putUint32 sampleRate
            \<bind> putUint32 (sampleRate * 2)
            \<bind> putUint16 2
            \<bind> putUint16 16
            \<bind> writeString ''data''
            \<bind> putUint32 (bufferLength * 2)
            \<bind> write_chunks chunks))"

text \<open>
  The layout of the specification's data model (section 3, WavContainer), written down
  from its words, to compare \<^const>\<open>createWavBlob\<close> with.
\<close>

definition ascii :: "string \<Rightarrow> byte list" where
  "ascii s = map of_char s"

definition wav_header :: "nat \<Rightarrow> nat \<Rightarrow> byte list" where
  "wav_header dataBytes sampleRate =
     ascii ''RIFF'' @ le32 (of_nat (36 + dataBytes)) @ ascii ''WAVEfmt '' @
     le32 16 @ le16 1 @ le16 1 @ le32 (of_nat sampleRate) @ le32 (of_nat (sampleRate * 2)) @
     le16 2 @ le16 16 @ ascii ''data'' @ le32 (of_nat dataBytes)"

definition WavContainer :: "int16 list list \<Rightarrow> nat \<Rightarrow> byte list" where
  "WavContainer chunks sampleRate =
     wav_header (2 * length (concat chunks)) sampleRate @ concat (map le16 (concat chunks))"

subsection \<open>The transport encoder (\<^verbatim>\<open>uint8ToBase64\<close>, lines 610-622)\<close>

text \<open>
  A JavaScript string is a sequence of 16-bit code units. \<^verbatim>\<open>String.fromCharCode\<close> applied
  to a slice of bytes gives one code unit per byte.
\<close>

type_synonym jsstring = "16 word list"

definition fromCharCode :: "byte list \<Rightarrow> jsstring" where
  "fromCharCode bytes = map ucast bytes"

definition subarray :: "'a list \<Rightarrow> nat \<Rightarrow> nat \<Rightarrow> 'a list" where
  "subarray arr begin end = take (end - begin) (drop begin arr)"

text \<open>
  The platform's \<^verbatim>\<open>btoa\<close>, after RFC 4648 section 4: three octets become four characters
  of the alphabet \<open>A-Z a-z 0-9 + /\<close>, a final group of one or two octets is padded with
  \<open>=\<close>. A code unit above 255 is an \<^verbatim>\<open>InvalidCharacterError\<close> (\<open>None\<close>).
\<close>

definition b64_char :: "nat \<Rightarrow> char" where
  "b64_char n =
     (if n < 26 then char_of (65 + n)
      else if n < 52 then char_of (71 + n)
      else if n < 62 then char_of (n - 4)
      else if n = 62 then CHR ''+''
      else CHR ''/'')"

definition b64_quad :: "byte \<Rightarrow> byte \<Rightarrow> byte \<Rightarrow> string" where
  "b64_quad x y z =
     [b64_char (unat x div 4),
      b64_char ((unat x mod 4) * 16 + unat y div 16),
      b64_char ((unat y mod 16) * 4 + unat z div 64),
      b64_char (unat z mod 64)]"

fun b64_encode :: "byte list \<Rightarrow> string" where
  "b64_encode [] = []"
| "b64_encode [x] =
     [b64_char (unat x div 4), b64_char ((unat x mod 4) * 16), CHR ''='', CHR ''='']"
| "b64_encode [x, y] =
     [b64_char (unat x div 4), b64_char ((unat x mod 4) * 16 + unat y div 16),
      b64_char ((unat y mod 16) * 4), CHR ''='']"
| "b64_encode (x # y # z # rest) = b64_quad x y z @ b64_encode rest"

definition btoa :: "jsstring \<Rightarrow> string option" where
  "btoa s = (if list_all (\<lambda>u. u \<le> 255) s then Some (b64_encode (map ucast s)) else None)"

text \<open>
  The loop of lines 616-620 with \<^verbatim>\<open>CHUNK_SIZE\<close> as a parameter. It does not end when
  \<^verbatim>\<open>CHUNK_SIZE\<close> is 0, so the result is an option and \<open>None\<close> is "no result".
\<close>

partial_function (option) chunk_loop :: "nat \<Rightarrow> byte list \<Rightarrow> nat \<Rightarrow> jsstring \<Rightarrow> jsstring option"
  where
  "chunk_loop CHUNK_SIZE u8Arr index result =
     (if index < length u8Arr
      then chunk_loop CHUNK_SIZE u8Arr (index + CHUNK_SIZE)
             (result @ fromCharCode (subarray u8Arr index (index + CHUNK_SIZE)))
      else Some result)"

declare chunk_loop.simps [code]

definition uint8ToBase64_chunked :: "nat \<Rightarrow> byte list \<Rightarrow> string option" where
  "uint8ToBase64_chunked CHUNK_SIZE u8Arr = chunk_loop CHUNK_SIZE u8Arr 0 [] \<bind> btoa"

definition uint8ToBase64 :: "byte list \<Rightarrow> string option" where
  "uint8ToBase64 u8Arr = uint8ToBase64_chunked 0x8000 u8Arr"

text \<open>
  Standard Base64 decoding (RFC 4648), which the receiving end of \<^verbatim>\<open>/speech-chat\<close>
  applies; \<open>None\<close> on text that is not Base64.
\<close>

definition b64_value :: "char \<Rightarrow> nat option" where
  "b64_value c =
     (let k = (of_char c :: nat) in
      if 65 \<le> k \<and> k \<le> 90 then Some (k - 65)
      else if 97 \<le> k \<and> k \<le> 122 then Some (k - 71)
      else if 48 \<le> k \<and> k \<le> 57 then Some (k + 4)
      else if k = 43 then Some 62
      else if k = 47 then Some 63
      else None)"

fun b64_decode :: "string \<Rightarrow> byte list option" where
  "b64_decode [] = Some []"
| "b64_decode (c1 # c2 # c3 # c4 # rest) =
     (case (b64_value c1, b64_value c2) of
        (Some s1, Some s2) \<Rightarrow>
          if c3 = CHR ''='' \<and> c4 = CHR ''='' \<and> rest = []
          then Some [of_nat (s1 * 4 + s2 div 16)]
          else (case b64_value c3 of
                  Some s3 \<Rightarrow>
                    if c4 = CHR ''='' \<and> rest = []
                    then Some [of_nat (s1 * 4 + s2 div 16), of_nat ((s2 mod 16) * 16 + s3 div 4)]
                    else (case b64_value c4 of
                            Some s4 \<Rightarrow>
                              map_option
                                (\<lambda>bs. of_nat (s1 * 4 + s2 div 16) #
                                      of_nat ((s2 mod 16) * 16 + s3 div 4) #
                                      of_nat ((s3 mod 4) * 64 + s4) # bs)
                                (b64_decode rest)
                          | None \<Rightarrow> None)
                | None \<Rightarrow> None)
      | _ \<Rightarrow> None)"
| "b64_decode _ = None"

subsection \<open>The chat transcript and the network\<close>

datatype sender = Bot | User

text \<open>\<^verbatim>\<open>text.replace(/\n/g, "<br>")\<close> of \<^verbatim>\<open>addMessage\<close>.\<close>

definition nl2br :: "string \<Rightarrow> string" where
  "nl2br text = concat (map (\<lambda>c. if c = CHR 0x0A then ''<br>'' else [c]) text)"

text \<open>
  The body posted to \<^verbatim>\<open>/speech-chat\<close> and what comes back. \<open>NetworkFailure\<close> is the
  call failing: \<^verbatim>\<open>fetch\<close> rejects, or the body is not JSON. A reply is an object as the
  endpoint's contract has it, its fields strings; a field that is absent or falsy is
  \<open>None\<close> or the empty string.
\<close>

record speech_request =
  audio :: string
  sampleRate :: nat

datatype speech_response =
  NetworkFailure
  | SpeechReply (transcript: "string option") (reply: "string option")

definition truthy :: "string option \<Rightarrow> bool" where
  "truthy v = (case v of None \<Rightarrow> False | Some s \<Rightarrow> s \<noteq> [])"

text \<open>\<^verbatim>\<open>v || fallback\<close> on a string that may be absent.\<close>

definition or_else :: "string option \<Rightarrow> string \<Rightarrow> string" where
  "or_else v fallback = (case v of None \<Rightarrow> fallback | Some s \<Rightarrow> if s = [] then fallback else s)"

text \<open>
  The texts of the widget's notices; the emoji that start them in the script are left
  out (the theory is ASCII).
\<close>

definition msg_chat_only :: string where "msg_chat_only = ''Voice works only in chat mode.''"
definition msg_no_audio :: string where "msg_no_audio = ''No audio recorded.''"
definition msg_processing :: string where "msg_processing = ''Processing voice...''"
definition msg_send_failed :: string where "msg_send_failed = ''Failed to send voice.''"
definition msg_no_reply :: string where "msg_no_reply = ''No reply''"
definition msg_unsupported :: string where "msg_unsupported = ''Speech recognition not supported.''"
definition msg_unsupported_acc :: string where
  "msg_unsupported_acc = ''Speech recognition not supported in this browser.''"
definition msg_no_speech :: string where "msg_no_speech = ''No speech detected.''"
definition msg_server_error :: string where "msg_server_error = ''Server error''"
definition msg_welcome :: string where
  "msg_welcome = ''Hey! I'm OlyphAI. How can I help you today?''"
definition msg_ask :: string where "msg_ask = ''You can now ask questions or use voice.''"
definition msg_survey :: string where "msg_survey = ''Opening survey form...''"

subsection \<open>The PCM variant (lines 458-727)\<close>

text \<open>
  The variables of the script. This variant dereferences its DOM elements without a
  check, so they are present. \<open>processor\<close> stands for the capture graph that
  \<^verbatim>\<open>startRecording\<close> builds (\<^verbatim>\<open>micStream\<close>, \<^verbatim>\<open>audioContext\<close>, \<^verbatim>\<open>input\<close>, \<^verbatim>\<open>processor\<close>),
  numbered in order of creation; \<open>capturing\<close> lists the graphs that are connected and
  deliver audio frames, \<open>intervals\<close> the interval timers that have not been cleared,
  \<open>fetched_pcm\<close> the requests posted so far. The last four fields belong to the browser,
  not to the script.
\<close>

record pcm_page =
  selectedMode_pcm :: "string option"
  chatBody_pcm :: "(sender \<times> string) list"
  recordingBar_pcm :: string
  recordingTime_pcm :: nat
  voicePreview_pcm :: string
  audioPlayback :: "byte list option"
  processor :: "nat option"
  pcmChunks :: "byte list list"
  wavChunks :: "int16 list list"
  timer :: "nat option"
  seconds :: nat
  capturing :: "nat list"
  intervals :: "nat list"
  created :: nat
  fetched_pcm :: "speech_request list"

definition addMessage_pcm :: "string \<Rightarrow> sender \<Rightarrow> pcm_page \<Rightarrow> pcm_page" where
  "addMessage_pcm text who st = st\<lparr>chatBody_pcm := chatBody_pcm st @ [(who, nl2br text)]\<rparr>"

text \<open>\<^verbatim>\<open>resetChat\<close> (lines 495-501) and \<^verbatim>\<open>handleSelection\<close> (lines 503-514).\<close>

definition resetChat_pcm :: "pcm_page \<Rightarrow> pcm_page" where
  "resetChat_pcm st =
     (addMessage_pcm msg_welcome Bot (st\<lparr>chatBody_pcm := []\<rparr>))\<lparr>selectedMode_pcm := None\<rparr>"

definition handleSelection_pcm :: "string \<Rightarrow> pcm_page \<Rightarrow> pcm_page" where
  "handleSelection_pcm mode st =
     addMessage_pcm (if mode = ''ask'' then msg_ask else msg_survey) Bot
       (st\<lparr>selectedMode_pcm := Some mode\<rparr>)"

text \<open>
  The page once the script has run to its end (line 726), on a document whose recording
  bar and preview start hidden.
\<close>

definition loaded_pcm :: pcm_page where
  "loaded_pcm =
     resetChat_pcm
       \<lparr>selectedMode_pcm = None, chatBody_pcm = [], recordingBar_pcm = ''none'',
        recordingTime_pcm = 0, voicePreview_pcm = ''none'', audioPlayback = None,
        processor = None, pcmChunks = [], wavChunks = [], timer = None, seconds = 0,
        capturing = [], intervals = [], created = 0, fetched_pcm = []\<rparr>"

text \<open>The loaded page after a click on the chat button (line 722).\<close>

definition asked_pcm :: pcm_page where
  "asked_pcm = handleSelection_pcm ''ask'' loaded_pcm"

text \<open>
  \<^verbatim>\<open>startRecording\<close> (lines 548-586). It awaits \<^verbatim>\<open>getUserMedia\<close> after the mode check:
  \<open>startRecording_pcm_resume\<close> is what runs once the promise settles, where
  \<open>micAvailable\<close> tells whether it resolved. When it rejects (no device, no permission,
  no \<^verbatim>\<open>mediaDevices\<close>) the function ends there with the rejection and nothing after line
  554 runs; the constructors after it are taken to succeed. \<open>startRecording_pcm\<close> is the
  call with no other event in between.
\<close>

definition startRecording_pcm_resume :: "bool \<Rightarrow> pcm_page \<Rightarrow> pcm_page" where
  "startRecording_pcm_resume micAvailable st =
     (if \<not> micAvailable then st
      else st\<lparr>processor := Some (created st),
              pcmChunks := [],
              wavChunks := [],
              seconds := 0,
              recordingBar_pcm := ''block'',
              voicePreview_pcm := ''none'',
              timer := Some (created st),
              intervals := intervals st @ [created st],
              capturing := capturing st @ [created st],
              created := created st + 1\<rparr>)"

definition startRecording_pcm :: "bool \<Rightarrow> pcm_page \<Rightarrow> pcm_page" where
  "startRecording_pcm micAvailable st =
     (if selectedMode_pcm st \<noteq> Some ''ask'' then addMessage_pcm msg_chat_only Bot st
      else startRecording_pcm_resume micAvailable st)"

text \<open>The interval callback of lines 567-570.\<close>

definition timer_tick_pcm :: "pcm_page \<Rightarrow> pcm_page" where
  "timer_tick_pcm st = st\<lparr>seconds := seconds st + 1, recordingTime_pcm := seconds st + 1\<rparr>"

text \<open>\<^verbatim>\<open>processor.onaudioprocess\<close> (lines 572-582): one frame of channel data.\<close>

definition onaudioprocess :: "rat list \<Rightarrow> pcm_page \<Rightarrow> pcm_page" where
  "onaudioprocess data st =
     (let pcm16 = map pcm16_sample data
      in st\<lparr>pcmChunks := pcmChunks st @ [Uint8Array_of pcm16],
              wavChunks := wavChunks st @ [pcm16]\<rparr>)"

text \<open>
  The browser delivers a frame to the handler of a graph only while the graph is
  connected. The handler is the same closure for every graph: it captures nothing of
  the session that registered it.
\<close>

definition audio_frame :: "nat \<Rightarrow> rat list \<Rightarrow> pcm_page \<Rightarrow> pcm_page" where
  "audio_frame node data st = (if node \<in> set (capturing st) then onaudioprocess data st else st)"

text \<open>A run of frames delivered one after the other.\<close>

definition record_frames :: "rat list list \<Rightarrow> pcm_page \<Rightarrow> pcm_page" where
  "record_frames frames st = foldl (\<lambda>st data. onaudioprocess data st) st frames"

text \<open>
  \<^verbatim>\<open>stopRecording\<close> (lines 588-599). With no graph yet (\<^verbatim>\<open>processor\<close> undefined), line 592
  throws and the rest does not run.
\<close>

definition stopRecording_pcm :: "pcm_page \<Rightarrow> pcm_page" where
  "stopRecording_pcm st =
     (let st1 = st\<lparr>intervals := (case timer st of None \<Rightarrow> intervals st
                                   | Some t \<Rightarrow> removeAll t (intervals st)),
                    recordingBar_pcm := ''none''\<rparr>
      in case processor st1 of
           None \<Rightarrow> st1
         | Some node \<Rightarrow>
             (let st2 = st1\<lparr>capturing := removeAll node (capturing st1)\<rparr>
              in case createWavBlob (wavChunks st2) 16000 of
                   None \<Rightarrow> st2
                 | Some wavBlob \<Rightarrow>
                     st2\<lparr>audioPlayback := Some wavBlob, voicePreview_pcm := ''block''\<rparr>))"

definition discardRecording_pcm :: "pcm_page \<Rightarrow> pcm_page" where
  "discardRecording_pcm st = st\<lparr>voicePreview_pcm := ''none'', pcmChunks := [], wavChunks := []\<rparr>"

text \<open>
  The merge of lines 635-642: a zeroed array of the total length, and every chunk set at
  the running offset.
\<close>

fun merge_loop :: "byte list list \<Rightarrow> byte list \<times> nat \<Rightarrow> (byte list \<times> nat) option" where
  "merge_loop [] (merged, offset) = Some (merged, offset)"
| "merge_loop (chunk # chunks) (merged, offset) =
     (case store merged offset chunk of
        None \<Rightarrow> None
      | Some merged' \<Rightarrow> merge_loop chunks (merged', offset + length chunk))"

definition merge_chunks :: "byte list list \<Rightarrow> byte list option" where
  "merge_chunks chunks =
     (let total = foldl (\<lambda>a b. a + length b) 0 chunks;
          merged = replicate total (0 :: byte)
      in map_option fst (merge_loop chunks (merged, 0)))"

text \<open>
  \<^verbatim>\<open>sendVoice\<close> (lines 627-673) up to the \<^verbatim>\<open>await fetch\<close>: the state, and the request that
  is now in flight, if any. An exception of the merge or of the encoder would end the
  function before the \<^verbatim>\<open>try\<close>.
\<close>

definition sendVoice_pcm_begin :: "pcm_page \<Rightarrow> pcm_page \<times> speech_request option" where
  "sendVoice_pcm_begin st =
     (if pcmChunks st = [] then (addMessage_pcm msg_no_audio Bot st, None)
      else
        (let st1 = addMessage_pcm msg_processing Bot st
         in case merge_chunks (pcmChunks st1) \<bind> uint8ToBase64 of
              None \<Rightarrow> (st1, None)
            | Some base64Audio \<Rightarrow>
                (let req = \<lparr>audio = base64Audio, sampleRate = 16000\<rparr>
                 in (st1\<lparr>fetched_pcm := fetched_pcm st1 @ [req]\<rparr>, Some req))))"

text \<open>The rest of \<^verbatim>\<open>sendVoice\<close>, once the request has settled (lines 661-672).\<close>

definition sendVoice_pcm_settle :: "speech_response \<Rightarrow> pcm_page \<Rightarrow> pcm_page" where
  "sendVoice_pcm_settle response st =
     discardRecording_pcm
       (case response of
          NetworkFailure \<Rightarrow> addMessage_pcm msg_send_failed Bot st
        | SpeechReply t r \<Rightarrow>
            addMessage_pcm (or_else r msg_no_reply) Bot
              (if truthy t then addMessage_pcm (or_else t []) User st else st))"

text \<open>The whole call, with no other event while the request is in flight.\<close>

definition sendVoice_pcm :: "speech_response \<Rightarrow> pcm_page \<Rightarrow> pcm_page" where
  "sendVoice_pcm response st =
     (case sendVoice_pcm_begin st of
        (st1, None) \<Rightarrow> st1
      | (st1, Some req) \<Rightarrow> sendVoice_pcm_settle response st1)"




subsection \<open>Speech recognition: events and recognizer objects\<close>

text \<open>
  A \<^verbatim>\<open>SpeechRecognitionEvent\<close>: \<^verbatim>\<open>resultIndex\<close>, and for every entry of \<^verbatim>\<open>results\<close> the
  transcript of its first alternative and its \<^verbatim>\<open>isFinal\<close> flag.
\<close>

record speech_event =
  resultIndex :: nat
  results :: "(string \<times> bool) list"

text \<open>
  \<^verbatim>\<open>String.prototype.trim\<close> on the code units a \<^typ>\<open>char\<close> can hold: tab, line feed,
  vertical tab, form feed, carriage return, space and no-break space are white space.
\<close>

definition is_space :: "char \<Rightarrow> bool" where
  "is_space c = ((of_char c :: nat) \<in> {9, 10, 11, 12, 13, 32, 160})"

definition trim :: "string \<Rightarrow> string" where
  "trim s = rev (dropWhile is_space (rev (dropWhile is_space s)))"

text \<open>What a recognizer object is doing; \<^verbatim>\<open>abort()\<close> and \<^verbatim>\<open>stop()\<close> on it.\<close>

datatype rec_status = Created | Listening | Stopped | Aborted

definition rec_abort :: "rec_status \<Rightarrow> rec_status" where
  "rec_abort r = Aborted"

definition rec_stop :: "rec_status \<Rightarrow> rec_status" where
  "rec_stop r = (if r = Listening then Stopped else r)"

datatype ask_response = AskFailure | AskReply "string option"

subsection \<open>The live variant with a session id (lines 230-457)\<close>

text \<open>
  The variables of the script. A DOM element the script tests before use is an option,
  \<open>None\<close> when the page lacks it. \<open>recognizers\<close> is the store of the recognizer objects
  created so far, \<open>recognizer\<close> the one the variable refers to. The button container
  and the home button only change their visibility and are left out.
\<close>

record live_page =
  selectedMode_live :: "string option"
  chatBody_live :: "(sender \<times> string) list option"
  userInput_live :: "string option"
  recordingBar_live :: "string option"
  recordingTime_live :: "nat option"
  voicePreview_live :: "string option"
  recognizer :: "nat option"
  recognizers :: "rec_status list"
  isRecording_live :: bool
  speechSessionId :: nat
  fetched_live :: "string list"

definition addMessage_live :: "string \<Rightarrow> sender \<Rightarrow> live_page \<Rightarrow> live_page" where
  "addMessage_live text who st =
     st\<lparr>chatBody_live := map_option (\<lambda>msgs. msgs @ [(who, nl2br text)]) (chatBody_live st)\<rparr>"

definition clearInputHard :: "live_page \<Rightarrow> live_page" where
  "clearInputHard st = st\<lparr>userInput_live := map_option (\<lambda>_. []) (userInput_live st)\<rparr>"

text \<open>\<^verbatim>\<open>resetSpeechState\<close> (lines 286-300), also the discard button's handler.\<close>

definition resetSpeechState :: "live_page \<Rightarrow> live_page" where
  "resetSpeechState st =
     clearInputHard
       (st\<lparr>speechSessionId := speechSessionId st + 1,
           isRecording_live := False,
           recognizers :=
             (case recognizer st of
                None \<Rightarrow> recognizers st
              | Some r \<Rightarrow> (recognizers st)[r := rec_stop (rec_abort (recognizers st ! r))]),
           recognizer := None,
           recordingBar_live := map_option (\<lambda>_. ''none'') (recordingBar_live st),
           voicePreview_live := map_option (\<lambda>_. ''none'') (voicePreview_live st)\<rparr>)"

definition resetChat_live :: "live_page \<Rightarrow> live_page" where
  "resetChat_live st =
     (addMessage_live msg_welcome Bot
        (resetSpeechState (st\<lparr>chatBody_live := map_option (\<lambda>_. []) (chatBody_live st)\<rparr>)))
     \<lparr>selectedMode_live := None\<rparr>"

definition handleSelection_live :: "string \<Rightarrow> live_page \<Rightarrow> live_page" where
  "handleSelection_live mode st =
     addMessage_live (if mode = ''ask'' then msg_ask else msg_survey) Bot
       ((resetSpeechState st)\<lparr>selectedMode_live := Some mode\<rparr>)"

text \<open>
  The page once the script has run to its end (line 456), on a document that has every
  element, with the recording bar and the preview hidden.
\<close>

definition loaded_live :: live_page where
  "loaded_live =
     resetChat_live
       \<lparr>selectedMode_live = None, chatBody_live = Some [], userInput_live = Some [],
        recordingBar_live = Some ''none'', recordingTime_live = Some 0,
        voicePreview_live = Some ''none'', recognizer = None, recognizers = [],
        isRecording_live = False, speechSessionId = 0, fetched_live = []\<rparr>"

text \<open>The loaded page after a click on the chat button (line 452).\<close>

definition asked_live :: live_page where
  "asked_live = handleSelection_live ''ask'' loaded_live"

text \<open>
  \<^verbatim>\<open>startRecording\<close> (lines 354-404). \<open>supported\<close> tells whether the browser has a
  \<^verbatim>\<open>SpeechRecognition\<close> constructor. The result is the new state and, when a session was
  started, the value of \<^verbatim>\<open>currentSession\<close> that the interval callback and the
  \<^verbatim>\<open>onresult\<close> handler registered by this call capture.
\<close>

definition startRecording_live :: "bool \<Rightarrow> live_page \<Rightarrow> live_page \<times> nat option" where
  "startRecording_live supported st =
     (if isRecording_live st then (st, None)
      else if selectedMode_live st \<noteq> Some ''ask'' then (addMessage_live msg_chat_only Bot st, None)
      else if \<not> supported then (addMessage_live msg_unsupported Bot st, None)
      else
        (let st1 = (resetSpeechState st)\<lparr>isRecording_live := True\<rparr>;
             currentSession = speechSessionId st1;
             r = length (recognizers st1)
         in (st1\<lparr>recognizer := Some r,
                  recognizers := recognizers st1 @ [Listening],
                  recordingBar_live := map_option (\<lambda>_. ''block'') (recordingBar_live st1),
                  recordingTime_live := map_option (\<lambda>_. 0) (recordingTime_live st1)\<rparr>,
             Some currentSession)))"

text \<open>
  Two pages for the examples: the chat page after a click on the microphone where
  recognition is supported, and that page after a click on stop and a second click on the
  microphone.
\<close>

definition recording_live :: live_page where
  "recording_live = fst (startRecording_live True asked_live)"

text \<open>
  The interval callback (lines 381-388), a closure over \<^verbatim>\<open>currentSession\<close> and its own
  counter \<^verbatim>\<open>seconds\<close>: the new state, and the new counter or \<open>None\<close> when the callback
  cleared its interval.
\<close>

definition timer_tick_live :: "nat \<Rightarrow> nat \<Rightarrow> live_page \<Rightarrow> live_page \<times> nat option" where
  "timer_tick_live currentSession secs st =
     (if \<not> isRecording_live st \<or> currentSession \<noteq> speechSessionId st then (st, None)
      else (st\<lparr>recordingTime_live := map_option (\<lambda>_. secs + 1) (recordingTime_live st)\<rparr>,
            Some (secs + 1)))"

text \<open>\<^verbatim>\<open>recognizer.onresult\<close> (lines 390-398), a closure over \<^verbatim>\<open>currentSession\<close>.\<close>

definition onresult_live :: "nat \<Rightarrow> speech_event \<Rightarrow> live_page \<Rightarrow> live_page" where
  "onresult_live currentSession event st =
     (if \<not> isRecording_live st \<or> currentSession \<noteq> speechSessionId st then st
      else
        (let text = concat (map fst (drop (resultIndex event) (results event)))
         in st\<lparr>userInput_live := map_option (\<lambda>_. trim text) (userInput_live st)\<rparr>))"

text \<open>\<^verbatim>\<open>recognizer.onerror\<close> (line 400): it captures nothing and tests nothing.\<close>

definition onerror_live :: "live_page \<Rightarrow> live_page" where
  "onerror_live st = resetSpeechState st"

definition stopRecording_live :: "live_page \<Rightarrow> live_page" where
  "stopRecording_live st =
     (if \<not> isRecording_live st then st
      else st\<lparr>isRecording_live := False,
              recognizers :=
                (case recognizer st of
                   None \<Rightarrow> recognizers st
                 | Some r \<Rightarrow> (recognizers st)[r := rec_stop (recognizers st ! r)]),
              recordingBar_live := map_option (\<lambda>_. ''none'') (recordingBar_live st),
              voicePreview_live := map_option (\<lambda>_. ''block'') (voicePreview_live st)\<rparr>)"

definition restarted_live :: live_page where
  "restarted_live = fst (startRecording_live True (stopRecording_live recording_live))"

text \<open>
  \<^verbatim>\<open>sendVoice\<close> (lines 418-441) and \<^verbatim>\<open>sendChat\<close> (lines 329-349) up to the
  \<^verbatim>\<open>await fetch\<close>: the state, and the message now in flight to \<^verbatim>\<open>/ask\<close>, if any.
\<close>

definition sendVoice_live_begin :: "live_page \<Rightarrow> live_page \<times> string option" where
  "sendVoice_live_begin st =
     (case userInput_live st of
        None \<Rightarrow> (st, None)
      | Some v \<Rightarrow>
          (let finalText = trim v
           in if finalText = [] then (addMessage_live msg_no_speech Bot st, None)
              else
                (let st1 = addMessage_live finalText User (resetSpeechState st)
                 in (st1\<lparr>fetched_live := fetched_live st1 @ [finalText]\<rparr>, Some finalText))))"

definition sendChat_live_begin :: "live_page \<Rightarrow> live_page \<times> string option" where
  "sendChat_live_begin st =
     (case userInput_live st of
        None \<Rightarrow> (st, None)
      | Some v \<Rightarrow>
          if selectedMode_live st \<noteq> Some ''ask'' then (st, None)
          else
            (let msg = trim v
             in if msg = [] then (st, None)
                else
                  (let st1 = addMessage_live msg User (resetSpeechState st)
                   in (st1\<lparr>fetched_live := fetched_live st1 @ [msg]\<rparr>, Some msg))))"

text \<open>The rest of either, once the request to \<^verbatim>\<open>/ask\<close> has settled.\<close>

definition ask_settle_live :: "ask_response \<Rightarrow> live_page \<Rightarrow> live_page" where
  "ask_settle_live response st =
     (case response of
        AskFailure \<Rightarrow> addMessage_live msg_server_error Bot st
      | AskReply r \<Rightarrow> addMessage_live (or_else r msg_no_reply) Bot st)"

text \<open>
  Everything that can happen to the page: the clicks the script binds (lines 446-454),
  a request settling, and the callbacks of any session, each with the values its closure
  captured.
\<close>

datatype live_event =
  ClickMic
  | ClickStop
  | ClickSendVoice
  | ClickDiscard
  | ClickSend
  | ClickAsk
  | ClickSurvey
  | ClickHome
  | AskSettled ask_response
  | ResultFired nat speech_event
  | ErrorFired
  | TimerFired nat nat

fun live_step :: "bool \<Rightarrow> live_page \<Rightarrow> live_event \<Rightarrow> live_page" where
  "live_step supported st ClickMic = fst (startRecording_live supported st)"
| "live_step supported st ClickStop = stopRecording_live st"
| "live_step supported st ClickSendVoice = fst (sendVoice_live_begin st)"
| "live_step supported st ClickDiscard = resetSpeechState st"
| "live_step supported st ClickSend = fst (sendChat_live_begin st)"
| "live_step supported st ClickAsk = handleSelection_live ''ask'' st"
| "live_step supported st ClickSurvey = handleSelection_live ''survey'' st"
| "live_step supported st ClickHome = resetChat_live st"
| "live_step supported st (AskSettled response) = ask_settle_live response st"
| "live_step supported st (ResultFired currentSession event) = onresult_live currentSession event st"
| "live_step supported st ErrorFired = onerror_live st"
| "live_step supported st (TimerFired currentSession secs) = fst (timer_tick_live currentSession secs st)"

definition live_run :: "bool \<Rightarrow> live_page \<Rightarrow> live_event list \<Rightarrow> live_page" where
  "live_run supported st events = foldl (live_step supported) st events"

subsection \<open>The live variant that accumulates a transcript (lines 1-229)\<close>

record acc_page =
  selectedMode_acc :: "string option"
  chatBody_acc :: "(sender \<times> string) list option"
  userInput_acc :: "string option"
  recordingBar_acc :: "string option"
  recordingTime_acc :: "nat option"
  voicePreview_acc :: "string option"
  liveRecognizer :: "rec_status option"
  liveTranscript :: string
  isRecording_acc :: bool

definition addMessage_acc :: "string \<Rightarrow> sender \<Rightarrow> acc_page \<Rightarrow> acc_page" where
  "addMessage_acc text who st =
     st\<lparr>chatBody_acc := map_option (\<lambda>msgs. msgs @ [(who, nl2br text)]) (chatBody_acc st)\<rparr>"

text \<open>\<^verbatim>\<open>resetChat\<close> (lines 49-56) and \<^verbatim>\<open>handleSelection\<close> (lines 58-70).\<close>

definition resetChat_acc :: "acc_page \<Rightarrow> acc_page" where
  "resetChat_acc st =
     (addMessage_acc msg_welcome Bot (st\<lparr>chatBody_acc := map_option (\<lambda>_. []) (chatBody_acc st)\<rparr>))
     \<lparr>selectedMode_acc := None, userInput_acc := map_option (\<lambda>_. []) (userInput_acc st)\<rparr>"

definition handleSelection_acc :: "string \<Rightarrow> acc_page \<Rightarrow> acc_page" where
  "handleSelection_acc mode st =
     addMessage_acc (if mode = ''ask'' then msg_ask else msg_survey) Bot
       (st\<lparr>selectedMode_acc := Some mode\<rparr>)"

text \<open>The page once the script has run to its end (line 228), with every element.\<close>

definition loaded_acc :: acc_page where
  "loaded_acc =
     resetChat_acc
       \<lparr>selectedMode_acc = None, chatBody_acc = Some [], userInput_acc = Some [],
        recordingBar_acc = Some ''none'', recordingTime_acc = Some 0,
        voicePreview_acc = Some ''none'', liveRecognizer = None, liveTranscript = [],
        isRecording_acc = False\<rparr>"

text \<open>\<^verbatim>\<open>startRecording\<close> (lines 101-158).\<close>

definition startRecording_acc :: "bool \<Rightarrow> acc_page \<Rightarrow> acc_page" where
  "startRecording_acc supported st =
     (if isRecording_acc st then st
      else if selectedMode_acc st \<noteq> Some ''ask'' then addMessage_acc msg_chat_only Bot st
      else if \<not> supported then addMessage_acc msg_unsupported_acc Bot st
      else st\<lparr>liveRecognizer := Some Listening,
              liveTranscript := [],
              isRecording_acc := True,
              recordingBar_acc := map_option (\<lambda>_. ''block'') (recordingBar_acc st),
              voicePreview_acc := map_option (\<lambda>_. ''none'') (voicePreview_acc st),
              recordingTime_acc := map_option (\<lambda>_. 0) (recordingTime_acc st)\<rparr>)"

text \<open>
  The loop of \<^verbatim>\<open>liveRecognizer.onresult\<close> (lines 137-144) over the entries from
  \<^verbatim>\<open>resultIndex\<close> on, carrying \<^verbatim>\<open>(interim, finalText)\<close>; then the handler (lines 133-150).
\<close>

fun result_loop :: "(string \<times> bool) list \<Rightarrow> string \<times> string \<Rightarrow> string \<times> string" where
  "result_loop [] (interim, finalText) = (interim, finalText)"
| "result_loop ((txt, isFinal) # rest) (interim, finalText) =
     (if isFinal then result_loop rest (interim, finalText @ txt @ '' '')
      else result_loop rest (interim @ txt, finalText))"

definition onresult_acc :: "speech_event \<Rightarrow> acc_page \<Rightarrow> acc_page" where
  "onresult_acc event st =
     (case result_loop (drop (resultIndex event) (results event)) ([], []) of
        (interim, finalText) \<Rightarrow>
          (let st1 = st\<lparr>liveTranscript := liveTranscript st @ finalText\<rparr>
           in st1\<lparr>userInput_acc :=
                    map_option (\<lambda>_. trim (liveTranscript st1 @ interim)) (userInput_acc st1)\<rparr>))"

text \<open>\<^verbatim>\<open>stopRecording\<close> (lines 160-177) and \<^verbatim>\<open>discardRecording\<close> (lines 179-183).\<close>

definition stopRecording_acc :: "acc_page \<Rightarrow> acc_page" where
  "stopRecording_acc st =
     (if \<not> isRecording_acc st then st
      else
        (let st1 = st\<lparr>isRecording_acc := False,
                       liveRecognizer := None,
                       recordingBar_acc := map_option (\<lambda>_. ''none'') (recordingBar_acc st)\<rparr>;
             st2 = (if liveTranscript st1 \<noteq> []
                    then st1\<lparr>userInput_acc :=
                               map_option (\<lambda>_. trim (liveTranscript st1)) (userInput_acc st1)\<rparr>
                    else st1)
         in st2\<lparr>voicePreview_acc := map_option (\<lambda>_. ''block'') (voicePreview_acc st2)\<rparr>))"

definition discardRecording_acc :: "acc_page \<Rightarrow> acc_page" where
  "discardRecording_acc st =
     st\<lparr>liveTranscript := [],
        userInput_acc := map_option (\<lambda>_. []) (userInput_acc st),
        voicePreview_acc := map_option (\<lambda>_. ''none'') (voicePreview_acc st)\<rparr>"

text \<open>
  The pending text as the specification's section 4.5 words it, to compare the handler
  with: the last entry of the pass that is not yet final replaces the pending text; with
  no such entry the pending text stays.
\<close>

definition pending_per_spec :: "string \<Rightarrow> (string \<times> bool) list \<Rightarrow> string" where
  "pending_per_spec pending entries =
     (case filter (\<lambda>(txt, isFinal). \<not> isFinal) entries of
        [] \<Rightarrow> pending
      | e # es \<Rightarrow> fst (last (e # es)))"

subsection \<open>Notions used only in the proofs\<close>

text \<open>
  \<open>emit bs\<close> writes the bytes \<open>bs\<close> at the offset and advances it; \<open>writes f bs\<close> says
  that the writer \<open>f\<close> does just that wherever the offset lies within the buffer.
\<close>

definition emit :: "byte list \<Rightarrow> writer \<Rightarrow> writer option" where
  "emit bs = (\<lambda>(view, offset).
     map_option (\<lambda>view'. (view', offset + length bs)) (store view offset bs))"

definition writes :: "(writer \<Rightarrow> writer option) \<Rightarrow> byte list \<Rightarrow> bool" where
  "writes f bs =
     (\<forall>view offset. offset \<le> length view \<longrightarrow> f (view, offset) = emit bs (view, offset))"

definition then_write ::
  "(writer \<Rightarrow> writer option) \<Rightarrow> (writer \<Rightarrow> writer option) \<Rightarrow> writer \<Rightarrow> writer option" where
  "then_write f g = (\<lambda>w. f w \<bind> g)"

section \<open>Properties\<close>

subsection \<open>Writers into a DataView\<close>

lemma length_le16 [simp]: "length (le16 w) = 2" by (simp add: le16_def)
lemma length_le32 [simp]: "length (le32 w) = 4" by (simp add: le32_def)
lemma length_ascii [simp]: "length (ascii s) = length s" by (simp add: ascii_def)

lemma emit_Nil: "offset \<le> length view \<Longrightarrow> emit [] (view, offset) = Some (view, offset)"
  by (simp add: emit_def store_def)

lemma emit_append: "emit bs w \<bind> emit cs = emit (bs @ cs) w"
proof (cases w)
  case (Pair view offset)
  show ?thesis
  proof (cases "offset + length bs \<le> length view")
    case True
    then show ?thesis using Pair
      by (simp add: emit_def store_def min_absorb2 add.assoc) (simp add: add.commute add.left_commute)
  next
    case False
    then show ?thesis using Pair by (simp add: emit_def store_def)
  qed
qed

lemma emit_keeps: "emit bs (view, offset) = Some (view', offset') \<Longrightarrow> offset' \<le> length view'"
  by (auto simp add: emit_def store_def split: if_splits)

lemma writes_then:
  assumes "writes f bs" "writes g cs"
  shows "writes (then_write f g) (bs @ cs)"
  unfolding writes_def then_write_def
proof (intro allI impI)
  fix view offset
  assume le: "offset \<le> length (view :: byte list)"
  then have f: "f (view, offset) = emit bs (view, offset)" using assms(1) by (simp add: writes_def)
  show "f (view, offset) \<bind> g = emit (bs @ cs) (view, offset)"
  proof (cases "emit bs (view, offset)")
    case None
    then have "emit bs (view, offset) \<bind> emit cs = None" by simp
    then show ?thesis using f None by (simp add: emit_append [symmetric])
  next
    case (Some w')
    obtain view' offset' where w': "w' = (view', offset')" by (cases w')
    from emit_keeps Some w' have "offset' \<le> length view'" by blast
    then have "g w' = emit cs w'" using assms(2) w' by (simp add: writes_def)
    then have "f (view, offset) \<bind> g = emit bs (view, offset) \<bind> emit cs"
      using f Some by simp
    then show ?thesis by (simp only: emit_append)
  qed
qed

lemma writes_putUint32: "writes (putUint32 n) (le32 (of_nat n))"
  by (simp add: writes_def putUint32_def emit_def setUint32_def)

lemma writes_putUint16: "writes (putUint16 n) (le16 (of_nat n))"
  by (simp add: writes_def putUint16_def emit_def setUint16_def)

lemma writes_Nil: "writes Some []"
  by (simp add: writes_def emit_Nil)

lemma writes_step:
  assumes "\<And>view offset. f (view, offset) = (case store view offset bs of None \<Rightarrow> None | Some view' \<Rightarrow> g (view', offset + length bs))"
    and "writes g cs"
  shows "writes f (bs @ cs)"
proof -
  have "f = then_write (emit bs) g"
    by (rule ext) (auto simp add: then_write_def emit_def assms(1) split: option.splits)
  moreover have "writes (emit bs) bs" by (simp add: writes_def)
  ultimately show ?thesis using writes_then assms(2) by simp
qed

lemma writes_writeString: "writes (writeString s) (ascii s)"
proof (induction s)
  case Nil
  have "writeString [] = Some" by (rule ext) auto
  then show ?case by (simp add: ascii_def writes_Nil)
next
  case (Cons c s)
  have "writes (writeString (c # s)) ([of_char c] @ ascii s)"
    by (rule writes_step [OF _ Cons]) (simp add: setUint8_def split: option.splits)
  then show ?case by (simp add: ascii_def)
qed

lemma writes_write_samples: "writes (write_samples chunk) (concat (map le16 chunk))"
proof (induction chunk)
  case Nil
  have "write_samples [] = Some" by (rule ext) auto
  then show ?case by (simp add: writes_Nil)
next
  case (Cons x chunk)
  have "writes (write_samples (x # chunk)) (le16 x @ concat (map le16 chunk))"
    by (rule writes_step [OF _ Cons]) (simp add: setInt16_def split: option.splits)
  then show ?case by simp
qed

lemma writes_write_chunks: "writes (write_chunks chunks) (concat (map le16 (concat chunks)))"
proof (induction chunks)
  case Nil
  have "write_chunks [] = Some" by (rule ext) auto
  then show ?case by (simp add: writes_Nil)
next
  case (Cons chunk chunks)
  have "write_chunks (chunk # chunks) = then_write (write_samples chunk) (write_chunks chunks)"
    by (rule ext) (simp add: then_write_def split: option.splits)
  then show ?case using writes_then [OF writes_write_samples Cons] by simp
qed

lemma writes_cong: "writes f bs \<Longrightarrow> bs = cs \<Longrightarrow> writes f cs"
  by simp

lemma length_concat_le16: "length (concat (map le16 xs)) = 2 * length xs"
  by (induction xs) simp_all
lemma length_wav_header: "length (wav_header d sr) = 44"
  by (simp add: wav_header_def)

lemma createWavBlob_layout: "createWavBlob chunks rate = Some (WavContainer chunks rate)"
proof -
  let ?n = "sum_list (map length chunks)"
  let ?F = "then_write (then_write (then_write (then_write (then_write (then_write (then_write
     (then_write (then_write (then_write (then_write (then_write
       (writeString ''RIFF'') (putUint32 (36 + ?n * 2))) (writeString ''WAVEfmt ''))
       (putUint32 16)) (putUint16 1)) (putUint16 1)) (putUint32 rate))
       (putUint32 (rate * 2))) (putUint16 2)) (putUint16 16)) (writeString ''data''))
       (putUint32 (?n * 2))) (write_chunks chunks)"
  have n: "?n = length (concat chunks)" by (simp add: length_concat)
  have "writes ?F (WavContainer chunks rate)"
    apply (rule writes_cong)
     apply (rule writes_then writes_writeString writes_putUint32 writes_putUint16 writes_write_chunks)+
    apply (simp add: WavContainer_def wav_header_def n mult.commute)
    done
  moreover have len: "length (WavContainer chunks rate) = 44 + ?n * 2"
    by (simp add: WavContainer_def length_wav_header length_concat_le16 n)
  ultimately have "?F (replicate (44 + ?n * 2) 0, 0) = Some (WavContainer chunks rate, 44 + ?n * 2)"
    by (simp add: writes_def emit_def store_def)
  then show ?thesis
    by (simp add: createWavBlob_def Let_def then_write_def)
qed

subsection \<open>The merge of \<^verbatim>\<open>sendVoice\<close>\<close>

lemma foldl_length_sum: "foldl (\<lambda>a b. a + length b) n chunks = n + length (concat chunks)"
  by (induction chunks arbitrary: n) simp_all

lemma merge_loop_emit: "writes (merge_loop chunks) (concat chunks)"
proof (induction chunks)
  case Nil
  have "merge_loop [] = Some" by (rule ext) auto
  then show ?case by (simp add: writes_Nil)
next
  case (Cons chunk chunks)
  have "writes (merge_loop (chunk # chunks)) (chunk @ concat chunks)"
    by (rule writes_step [OF _ Cons]) (simp split: option.splits)
  then show ?case by simp
qed

lemma writes_whole:
  assumes "writes f bs"
  shows "f (replicate (length bs) 0, 0) = Some (bs, length bs)"
  using assms by (simp add: writes_def emit_def store_def)

lemma merge_chunks_concat: "merge_chunks chunks = Some (concat chunks)"
  using writes_whole [OF merge_loop_emit, of chunks]
  by (simp add: merge_chunks_def foldl_length_sum)

subsection \<open>Little-endian images decode to the words they came from\<close>

lemma getInt16_le16: "getInt16 (ucast w) (ucast (drop_bit 8 w)) = w"
  unfolding getInt16_def
  by (rule bit_word_eqI) (auto simp add: bit_simps)

lemma getUint32_le32:
  "getUint32 (ucast w) (ucast (drop_bit 8 w)) (ucast (drop_bit 16 w)) (ucast (drop_bit 24 w)) = w"
proof (rule bit_word_eqI)
  fix n :: nat
  assume "n < LENGTH(32)"
  then consider "n < 8" | "8 \<le> n" "n < 16" | "16 \<le> n" "n < 24" | "24 \<le> n" "n < 32"
    by fastforce
  then show "bit (getUint32 (ucast w) (ucast (drop_bit 8 w)) (ucast (drop_bit 16 w))
      (ucast (drop_bit 24 w))) n = bit w n"
    unfolding getUint32_def
    by cases (auto simp add: bit_simps)
qed

lemma decode_le16_append: "decode_le16 (le16 w @ bs) = w # decode_le16 bs"
  by (simp add: le16_def getInt16_le16)

lemma decode_le16_bytes: "decode_le16 (concat (map le16 ws)) = ws"
  by (induction ws) (simp_all add: decode_le16_append)

lemma decode_Uint8Array_of: "decode_le16 (concat (map Uint8Array_of chunks)) = concat chunks"
proof -
  have "concat (map Uint8Array_of chunks) = concat (map le16 (concat chunks))"
    by (induction chunks) (simp_all add: Uint8Array_of_def)
  then show ?thesis by (simp add: decode_le16_bytes)
qed

subsection \<open>The chunked encoder\<close>

lemma chunk_loop_result:
  assumes "0 < c"
  shows "chunk_loop c u8 index result = Some (result @ fromCharCode (drop index u8))"
proof (induction "length u8 - index" arbitrary: index result rule: less_induct)
  case less
  show ?case
  proof (cases "index < length u8")
    case True
    then have "length u8 - (index + c) < length u8 - index" using assms by simp
    from less [OF this]
    have "chunk_loop c u8 (index + c) (result @ fromCharCode (subarray u8 index (index + c)))
      = Some ((result @ fromCharCode (subarray u8 index (index + c))) @ fromCharCode (drop (index + c) u8))" .
    moreover have "fromCharCode (subarray u8 index (index + c)) @ fromCharCode (drop (index + c) u8)
      = fromCharCode (drop index u8)"
    proof -
      have "take c (drop index u8) @ drop c (drop index u8) = drop index u8" by (rule append_take_drop_id)
      then show ?thesis
        by (simp add: fromCharCode_def subarray_def add.commute flip: map_append)
    qed
    ultimately show ?thesis using True
      by (subst chunk_loop.simps) simp
  next
    case False
    then show ?thesis by (subst chunk_loop.simps) (simp add: fromCharCode_def)
  qed
qed

lemma byte_lt: "unat (x :: byte) < 256"
  using unsigned_less [of x, where 'a = nat] by simp

lemma unat_ucast_byte: "unat (ucast (b :: byte) :: 16 word) = unat b"
proof -
  have "unat b < 2 ^ 16" using byte_lt [of b] by simp
  then show ?thesis by (simp add: unsigned_ucast_eq take_bit_nat_eq_self)
qed

lemma ucast_byte_le: "(ucast (b :: byte) :: 16 word) \<le> 255"
  using byte_lt [of b] by (simp add: word_le_nat_alt unat_ucast_byte)

lemma ucast_ucast_byte: "(ucast (ucast (b :: byte) :: 16 word) :: byte) = b"
  by (rule bit_word_eqI) (auto simp add: bit_simps)

lemma btoa_fromCharCode: "btoa (fromCharCode u8) = Some (b64_encode u8)"
proof -
  have "list_all (\<lambda>u. u \<le> 255) (fromCharCode u8)"
    by (induction u8) (simp_all add: fromCharCode_def ucast_byte_le)
  moreover have "map ucast (fromCharCode u8) = u8"
    by (induction u8) (simp_all add: fromCharCode_def ucast_ucast_byte)
  ultimately show ?thesis by (simp add: btoa_def)
qed

lemma uint8ToBase64_chunked_eq:
  "0 < c \<Longrightarrow> uint8ToBase64_chunked c u8 = Some (b64_encode u8)"
  using btoa_fromCharCode [of u8]
  by (simp add: uint8ToBase64_chunked_def chunk_loop_result fromCharCode_def)


subsection \<open>Base64 decoding inverts encoding\<close>

lemma b64_value_char: "n < 64 \<Longrightarrow> b64_value (b64_char n) = Some n"
  by (auto simp add: b64_value_def b64_char_def Let_def)

lemma b64_char_not_pad: "n < 64 \<Longrightarrow> b64_char n \<noteq> CHR ''=''"
proof
  assume "n < 64" "b64_char n = CHR ''=''"
  then have "b64_value (b64_char n) = b64_value (CHR ''='')" by simp
  then show False using \<open>n < 64\<close> by (simp add: b64_value_char) (simp add: b64_value_def)
qed

lemma byte_of_unat: "of_nat (unat x) = (x :: byte)"
  by simp

lemma sextet_lt:
  fixes a b :: nat
  assumes "b < 256"
  shows "(a mod 4) * 16 + b div 16 < 64" "(a mod 16) * 4 + b div 64 < 64"
    "b div 4 < 64" "(a mod 4) * 16 < 64" "(a mod 16) * 4 < 64"
proof -
  have "a mod 4 < 4" "a mod 16 < 16" by simp_all
  then have "a mod 4 \<le> 3" "a mod 16 \<le> 15" by linarith+
  moreover have "b div 16 < 16" "b div 64 < 4" using assms by simp_all
  ultimately show "(a mod 4) * 16 + b div 16 < 64" "(a mod 16) * 4 + b div 64 < 64"
    "(a mod 4) * 16 < 64" "(a mod 16) * 4 < 64"
    by linarith+
  show "b div 4 < 64" using assms by simp
qed

lemma octet1:
  fixes a b :: nat
  assumes "b < 256"
  shows "(a div 4) * 4 + ((a mod 4) * 16 + b div 16) div 16 = a"
proof -
  have "b div 16 < 16" using assms by simp
  then have "((a mod 4) * 16 + b div 16) div 16 = a mod 4" by simp
  then show ?thesis by simp
qed

lemma octet2:
  fixes a b c :: nat
  assumes "b < 256" "c < 256"
  shows "(((a mod 4) * 16 + b div 16) mod 16) * 16 + ((b mod 16) * 4 + c div 64) div 4 = b"
proof -
  have "b div 16 < 16" using assms by simp
  then have "((a mod 4) * 16 + b div 16) mod 16 = b div 16" by simp
  moreover have "c div 64 < 4" using assms by simp
  then have "((b mod 16) * 4 + c div 64) div 4 = b mod 16" by simp
  ultimately show ?thesis by simp
qed

lemma octet2_pad:
  fixes a b :: nat
  assumes "b < 256"
  shows "(((a mod 4) * 16 + b div 16) mod 16) * 16 + ((b mod 16) * 4) div 4 = b"
  using octet2 [OF assms, of 0 a] by simp

lemma octet3:
  fixes b c :: nat
  assumes "c < 256"
  shows "(((b mod 16) * 4 + c div 64) mod 4) * 64 + c mod 64 = c"
proof -
  have "c div 64 < 4" using assms by simp
  then have "((b mod 16) * 4 + c div 64) mod 4 = c div 64" by simp
  then show ?thesis by simp
qed

lemma b64_decode_quad:
  "b64_decode (b64_quad x y z @ cs) = map_option (\<lambda>bs. x # y # z # bs) (b64_decode cs)"
proof -
  let ?s1 = "unat x div 4" and ?s2 = "(unat x mod 4) * 16 + unat y div 16"
  let ?s3 = "(unat y mod 16) * 4 + unat z div 64" and ?s4 = "unat z mod 64"
  have lt: "?s1 < 64" "?s2 < 64" "?s3 < 64" "?s4 < 64"
    using sextet_lt [OF byte_lt] by simp_all
  have v: "b64_value (b64_char ?s1) = Some ?s1" "b64_value (b64_char ?s2) = Some ?s2"
    "b64_value (b64_char ?s3) = Some ?s3" "b64_value (b64_char ?s4) = Some ?s4"
    using lt by (simp_all only: b64_value_char)
  have np: "b64_char ?s3 \<noteq> CHR ''=''" "b64_char ?s4 \<noteq> CHR ''=''"
    using lt by (simp_all only: b64_char_not_pad not_False_eq_True)
  have o: "?s1 * 4 + ?s2 div 16 = unat x" "(?s2 mod 16) * 16 + ?s3 div 4 = unat y"
    "(?s3 mod 4) * 64 + ?s4 = unat z"
    using octet1 [OF byte_lt] octet2 [OF byte_lt byte_lt] octet3 [OF byte_lt] by simp_all
  show ?thesis
    unfolding b64_quad_def
    by (simp only: append_Cons append_Nil b64_decode.simps v np o option.case prod.case
        simp_thms if_False byte_of_unat)
qed

lemma b64_decode_encode: "b64_decode (b64_encode bs) = Some bs"
proof (induction bs rule: b64_encode.induct)
  case 1
  show ?case by simp
next
  case (2 x)
  let ?s1 = "unat x div 4" and ?s2 = "(unat x mod 4) * 16"
  have lt: "?s1 < 64" "?s2 < 64" using sextet_lt [OF byte_lt] by simp_all
  have v: "b64_value (b64_char ?s1) = Some ?s1" "b64_value (b64_char ?s2) = Some ?s2"
    using lt by (simp_all only: b64_value_char)
  have o: "?s1 * 4 + ?s2 div 16 = unat x" by simp
  show ?case
    by (simp only: b64_encode.simps b64_decode.simps v o option.case prod.case
        simp_thms if_True byte_of_unat)
next
  case (3 x y)
  let ?s1 = "unat x div 4" and ?s2 = "(unat x mod 4) * 16 + unat y div 16"
  let ?s3 = "(unat y mod 16) * 4"
  have lt: "?s1 < 64" "?s2 < 64" "?s3 < 64" using sextet_lt [OF byte_lt] by simp_all
  have v: "b64_value (b64_char ?s1) = Some ?s1" "b64_value (b64_char ?s2) = Some ?s2"
    "b64_value (b64_char ?s3) = Some ?s3"
    using lt by (simp_all only: b64_value_char)
  have np: "b64_char ?s3 \<noteq> CHR ''=''"
    using lt by (simp_all only: b64_char_not_pad not_False_eq_True)
  have o: "?s1 * 4 + ?s2 div 16 = unat x" "(?s2 mod 16) * 16 + ?s3 div 4 = unat y"
    using octet1 [OF byte_lt] octet2_pad [OF byte_lt] by simp_all
  show ?case
    by (simp only: b64_encode.simps b64_decode.simps v np o option.case prod.case
        simp_thms if_True if_False byte_of_unat)
next
  case (4 x y z rest)
  then show ?case by (simp only: b64_encode.simps b64_decode_quad option.map)
qed

subsection \<open>Sample conversion and the frame buffer\<close>

lemma sum_list_length_concat: "sum_list (map length chunks) = length (concat chunks)"
  by (simp add: length_concat)

lemma trunc_toward_zero_bounds:
  assumes "\<bar>y\<bar> \<le> 32767"
  shows "- 32767 \<le> trunc_toward_zero y \<and> trunc_toward_zero y \<le> 32767"
proof (cases "0 \<le> y")
  case True
  then have "0 \<le> \<lfloor>y\<rfloor>" by simp
  moreover have "\<lfloor>y\<rfloor> \<le> 32767" using True assms by (simp add: floor_le_iff)
  moreover have "trunc_toward_zero y = \<lfloor>y\<rfloor>" using True by (simp add: trunc_toward_zero_def)
  ultimately show ?thesis by linarith
next
  case False
  then have "0 \<le> \<lfloor>- y\<rfloor>" by simp
  moreover have "\<lfloor>- y\<rfloor> \<le> 32767" using False assms by (simp add: floor_le_iff)
  moreover have "trunc_toward_zero y = - \<lfloor>- y\<rfloor>" using False by (simp add: trunc_toward_zero_def)
  ultimately show ?thesis by linarith
qed

lemma sint_pcm16_sample: "sint (pcm16_sample x) = trunc_toward_zero (max (- 1) (min 1 x) * 32767)"
proof -
  have "\<bar>max (- 1) (min 1 x) * 32767\<bar> \<le> 32767" by (auto simp: abs_le_iff)
  from trunc_toward_zero_bounds [OF this] show ?thesis
    unfolding pcm16_sample_def toInt16_def
    by (simp add: signed_of_int signed_take_bit_int_eq_self)
qed

lemma chunks_record_frames:
  "pcmChunks (record_frames frames st) = pcmChunks st @ map (\<lambda>data. Uint8Array_of (map pcm16_sample data)) frames"
  "wavChunks (record_frames frames st) = wavChunks st @ map (map pcm16_sample) frames"
  unfolding record_frames_def
  by (induction frames arbitrary: st) (simp_all add: onaudioprocess_def Let_def)

lemma concat_Uint8Array_of: "concat (map Uint8Array_of chunks) = concat (map le16 (concat chunks))"
  by (induction chunks) (simp_all add: Uint8Array_of_def)

subsection \<open>The fields of the WAV layout\<close>

lemma u32_at_append:
  "length pre = off \<Longrightarrow> u32_at off (pre @ le32 w @ post) = w"
  by (auto simp add: u32_at_def le32_def nth_append getUint32_le32)

lemma u16_at_append:
  "length pre = off \<Longrightarrow> u16_at off (pre @ le16 w @ post) = w"
  by (auto simp add: u16_at_def le16_def nth_append getInt16_le16)

lemma wav_fields:
  fixes d rate :: nat and data :: "byte list"
  defines "W \<equiv> wav_header d rate @ data"
  shows "take 4 W = ascii ''RIFF''"
    and "u32_at 4 W = of_nat (36 + d)"
    and "take 8 (drop 8 W) = ascii ''WAVEfmt ''"
    and "u32_at 16 W = 16"
    and "u16_at 20 W = 1"
    and "u16_at 22 W = 1"
    and "u32_at 24 W = of_nat rate"
    and "u32_at 28 W = of_nat (rate * 2)"
    and "u16_at 32 W = 2"
    and "u16_at 34 W = 16"
    and "take 4 (drop 36 W) = ascii ''data''"
    and "u32_at 40 W = of_nat d"
    and "drop 44 W = data"
proof -
  show "take 4 W = ascii ''RIFF''" by (simp add: W_def wav_header_def ascii_def)
  show "u32_at 4 W = of_nat (36 + d)"
    using u32_at_append [of "ascii ''RIFF''" 4] by (simp add: W_def wav_header_def)
  show "take 8 (drop 8 W) = ascii ''WAVEfmt ''" by (simp add: W_def wav_header_def ascii_def)
  show "u32_at 16 W = 16"
    using u32_at_append [of "ascii ''RIFF'' @ le32 (of_nat (36 + d)) @ ascii ''WAVEfmt ''" 16]
    by (simp add: W_def wav_header_def)
  show "u16_at 20 W = 1"
    using u16_at_append [of "ascii ''RIFF'' @ le32 (of_nat (36 + d)) @ ascii ''WAVEfmt '' @ le32 16" 20]
    by (simp add: W_def wav_header_def)
  show "u16_at 22 W = 1"
    using u16_at_append [of "ascii ''RIFF'' @ le32 (of_nat (36 + d)) @ ascii ''WAVEfmt '' @ le32 16 @ le16 1" 22]
    by (simp add: W_def wav_header_def)
  show "u32_at 24 W = of_nat rate"
    using u32_at_append [of "ascii ''RIFF'' @ le32 (of_nat (36 + d)) @ ascii ''WAVEfmt '' @ le32 16 @ le16 1 @ le16 1" 24]
    by (simp add: W_def wav_header_def)
  show "u32_at 28 W = of_nat (rate * 2)"
    using u32_at_append [of "ascii ''RIFF'' @ le32 (of_nat (36 + d)) @ ascii ''WAVEfmt '' @ le32 16 @ le16 1 @ le16 1
      @ le32 (of_nat rate)" 28]
    by (simp add: W_def wav_header_def)
  show "u16_at 32 W = 2"
    using u16_at_append [of "ascii ''RIFF'' @ le32 (of_nat (36 + d)) @ ascii ''WAVEfmt '' @ le32 16 @ le16 1 @ le16 1
      @ le32 (of_nat rate) @ le32 (of_nat (rate * 2))" 32]
    by (simp add: W_def wav_header_def)
  show "u16_at 34 W = 16"
    using u16_at_append [of "ascii ''RIFF'' @ le32 (of_nat (36 + d)) @ ascii ''WAVEfmt '' @ le32 16 @ le16 1 @ le16 1
      @ le32 (of_nat rate) @ le32 (of_nat (rate * 2)) @ le16 2" 34]
    by (simp add: W_def wav_header_def)
  show "take 4 (drop 36 W) = ascii ''data''" by (simp add: W_def wav_header_def ascii_def le32_def le16_def)
  show "u32_at 40 W = of_nat d"
    using u32_at_append [of "ascii ''RIFF'' @ le32 (of_nat (36 + d)) @ ascii ''WAVEfmt '' @ le32 16 @ le16 1 @ le16 1
      @ le32 (of_nat rate) @ le32 (of_nat (rate * 2)) @ le16 2 @ le16 16 @ ascii ''data''" 40]
    by (simp add: W_def wav_header_def)
  show "drop 44 W = data" by (simp add: W_def length_wav_header)
qed

lemma uint8ToBase64_eq: "uint8ToBase64 u8 = Some (b64_encode u8)"
  by (simp add: uint8ToBase64_def uint8ToBase64_chunked_eq)

subsection \<open>A recording that is stopped\<close>

lemma started_pcm:
  "startRecording_pcm True (st\<lparr>selectedMode_pcm := Some ''ask''\<rparr>)
     = startRecording_pcm_resume True (st\<lparr>selectedMode_pcm := Some ''ask''\<rparr>)"
  by (simp add: startRecording_pcm_def)

lemma record_frames_other:
  "processor (record_frames frames st) = processor st"
  "timer (record_frames frames st) = timer st"
  "intervals (record_frames frames st) = intervals st"
  "capturing (record_frames frames st) = capturing st"
  "audioPlayback (record_frames frames st) = audioPlayback st"
  "fetched_pcm (record_frames frames st) = fetched_pcm st"
  "chatBody_pcm (record_frames frames st) = chatBody_pcm st"
  unfolding record_frames_def
  by (induction frames arbitrary: st) (simp_all add: onaudioprocess_def Let_def)

lemma stopRecording_pcm_chunks:
  "pcmChunks (stopRecording_pcm st) = pcmChunks st"
  "wavChunks (stopRecording_pcm st) = wavChunks st"
  by (simp_all add: stopRecording_pcm_def Let_def createWavBlob_layout split: option.splits)

lemma stopRecording_pcm_preview:
  "processor st \<noteq> None \<Longrightarrow>
   audioPlayback (stopRecording_pcm st) = Some (WavContainer (wavChunks st) 16000)"
  by (auto simp add: stopRecording_pcm_def Let_def createWavBlob_layout split: option.splits)


lemma recorded_then_stopped:
  fixes st :: pcm_page and frames :: "rat list list"
  defines "st3 \<equiv> stopRecording_pcm
    (record_frames frames (startRecording_pcm True (st\<lparr>selectedMode_pcm := Some ''ask''\<rparr>)))"
  shows "wavChunks st3 = map (map pcm16_sample) frames"
    and "pcmChunks st3 = map Uint8Array_of (map (map pcm16_sample) frames)"
    and "audioPlayback st3 = Some (WavContainer (map (map pcm16_sample) frames) 16000)"
proof -
  let ?st2 = "record_frames frames (startRecording_pcm True (st\<lparr>selectedMode_pcm := Some ''ask''\<rparr>))"
  show w: "wavChunks st3 = map (map pcm16_sample) frames"
    by (simp add: st3_def stopRecording_pcm_chunks chunks_record_frames started_pcm
        startRecording_pcm_resume_def)
  show "pcmChunks st3 = map Uint8Array_of (map (map pcm16_sample) frames)"
    by (simp add: st3_def stopRecording_pcm_chunks chunks_record_frames started_pcm
        startRecording_pcm_resume_def)
  have "processor ?st2 \<noteq> None"
    by (simp add: record_frames_other started_pcm startRecording_pcm_resume_def)
  then show "audioPlayback st3 = Some (WavContainer (map (map pcm16_sample) frames) 16000)"
    using stopRecording_pcm_preview [of ?st2] w
    by (simp add: st3_def stopRecording_pcm_chunks)
qed

subsection \<open>The result loop of the accumulating variant\<close>

lemma result_loop_eq:
  "result_loop entries (interim, finalText) =
     (interim @ concat (map fst (filter (\<lambda>(txt, isFinal). \<not> isFinal) entries)),
      finalText @ concat (map (\<lambda>(txt, isFinal). txt @ '' '') (filter (\<lambda>(txt, isFinal). isFinal) entries)))"
  by (induction entries "(interim, finalText)" arbitrary: interim finalText rule: result_loop.induct)
    simp_all

lemma trim_simps:
  "trim ''hello'' = ''hello''" "trim ''hel'' = ''hel''" "trim ''lo'' = ''lo''" "trim [] = []"
  "trim ''hello '' = ''hello''"
  by (simp_all add: trim_def is_space_def)

subsection \<open>Sending a recording\<close>

lemma nl2br_plain: "CHR 0x0A \<notin> set s \<Longrightarrow> nl2br s = s"
  unfolding nl2br_def by (induction s) auto

lemma nl2br_msgs:
  "nl2br msg_no_audio = msg_no_audio" "nl2br msg_processing = msg_processing"
  "nl2br msg_send_failed = msg_send_failed" "nl2br msg_no_speech = msg_no_speech"
  "nl2br msg_chat_only = msg_chat_only" "nl2br msg_unsupported = msg_unsupported"
  by (simp_all add: nl2br_def msg_no_audio_def msg_processing_def msg_send_failed_def
      msg_no_speech_def msg_chat_only_def msg_unsupported_def)



subsection \<open>The session id of the live variant\<close>

lemma resetSpeechState_fields:
  "speechSessionId (resetSpeechState st) = speechSessionId st + 1"
  "isRecording_live (resetSpeechState st) = False"
  "recognizer (resetSpeechState st) = None"
  "userInput_live (resetSpeechState st) = map_option (\<lambda>_. []) (userInput_live st)"
  "length (recognizers (resetSpeechState st)) = length (recognizers st)"
  "selectedMode_live (resetSpeechState st) = selectedMode_live st"
  "chatBody_live (resetSpeechState st) = chatBody_live st"
  "fetched_live (resetSpeechState st) = fetched_live st"
  "recordingTime_live (resetSpeechState st) = recordingTime_live st"
  by (simp_all add: resetSpeechState_def clearInputHard_def split: option.splits)

lemma resetSpeechState_aborts:
  "recognizer st = Some r \<Longrightarrow> r < length (recognizers st) \<Longrightarrow>
   recognizers (resetSpeechState st) ! r = Aborted"
  by (simp add: resetSpeechState_def clearInputHard_def rec_abort_def rec_stop_def)

lemma addMessage_live_fields:
  "speechSessionId (addMessage_live m who st) = speechSessionId st"
  "isRecording_live (addMessage_live m who st) = isRecording_live st"
  "userInput_live (addMessage_live m who st) = userInput_live st"
  by (simp_all add: addMessage_live_def)

lemma startRecording_live_started:
  assumes "\<not> isRecording_live st" "selectedMode_live st = Some ''ask''" "supported"
  shows "startRecording_live supported st =
    ((resetSpeechState st)
       \<lparr>isRecording_live := True,
        recognizer := Some (length (recognizers st)),
        recognizers := recognizers (resetSpeechState st) @ [Listening],
        recordingBar_live := map_option (\<lambda>_. ''block'') (recordingBar_live st),
        recordingTime_live := map_option (\<lambda>_. 0) (recordingTime_live st)\<rparr>,
     Some (speechSessionId st + 1))"
  using assms
  by (simp add: startRecording_live_def Let_def resetSpeechState_fields)
    (simp add: resetSpeechState_def clearInputHard_def option.map_comp comp_def)

lemma startRecording_live_recording:
  "isRecording_live st \<Longrightarrow> startRecording_live supported st = (st, None)"
  by (simp add: startRecording_live_def)

lemma startRecording_live_token:
  assumes "startRecording_live supported st = (st', Some tok)"
  shows "tok = speechSessionId st'" "speechSessionId st' = speechSessionId st + 1"
  using assms
  by (auto simp add: startRecording_live_def Let_def resetSpeechState_fields split: if_splits)

lemma token_mono_step: "speechSessionId st \<le> speechSessionId (live_step supported st e)"
proof (cases e)
  case ClickMic
  then show ?thesis
    by (simp add: startRecording_live_def Let_def resetSpeechState_fields addMessage_live_fields)
next
  case ClickStop
  then show ?thesis by (simp add: stopRecording_live_def)
next
  case ClickSendVoice
  then show ?thesis
    by (simp add: sendVoice_live_begin_def Let_def resetSpeechState_fields addMessage_live_fields
        split: option.splits)
next
  case ClickDiscard
  then show ?thesis by (simp add: resetSpeechState_fields)
next
  case ClickSend
  then show ?thesis
    by (simp add: sendChat_live_begin_def Let_def resetSpeechState_fields addMessage_live_fields
        split: option.splits)
next
  case ClickAsk
  then show ?thesis
    by (simp add: handleSelection_live_def resetSpeechState_fields addMessage_live_fields)
next
  case ClickSurvey
  then show ?thesis
    by (simp add: handleSelection_live_def resetSpeechState_fields addMessage_live_fields)
next
  case ClickHome
  then show ?thesis
    by (simp add: resetChat_live_def resetSpeechState_fields addMessage_live_fields)
next
  case (AskSettled response)
  then show ?thesis
    by (simp add: ask_settle_live_def addMessage_live_fields split: ask_response.splits)
next
  case (ResultFired c event)
  then show ?thesis by (simp add: onresult_live_def Let_def)
next
  case ErrorFired
  then show ?thesis by (simp add: onerror_live_def resetSpeechState_fields)
next
  case (TimerFired c secs)
  then show ?thesis by (simp add: timer_tick_live_def)
qed

lemma token_mono_run: "speechSessionId st \<le> speechSessionId (live_run supported st events)"
  unfolding live_run_def
proof (induction events arbitrary: st)
  case Nil
  show ?case by simp
next
  case (Cons e events)
  have "speechSessionId st \<le> speechSessionId (live_step supported st e)"
    by (rule token_mono_step)
  also have "\<dots> \<le> speechSessionId (foldl (live_step supported) (live_step supported st e) events)"
    by (rule Cons.IH)
  finally show ?case by simp
qed

lemma stale_callbacks_gated:
  assumes "c \<noteq> speechSessionId st"
  shows "onresult_live c event st = st" "timer_tick_live c secs st = (st, None)"
  using assms by (simp_all add: onresult_live_def timer_tick_live_def)

lemma asked_live_fields:
  "selectedMode_live asked_live = Some ''ask''" "\<not> isRecording_live asked_live"
  "speechSessionId asked_live = 2" "recognizers asked_live = []" "recognizer asked_live = None"
  "userInput_live asked_live = Some []" "recordingTime_live asked_live = Some 0"
  "recordingBar_live asked_live = Some ''none''" "voicePreview_live asked_live = Some ''none''"
  "fetched_live asked_live = []"
  by (simp_all add: asked_live_def loaded_live_def handleSelection_live_def resetChat_live_def
      resetSpeechState_def clearInputHard_def addMessage_live_def)


lemma asked_pcm_fields:
  "selectedMode_pcm asked_pcm = Some ''ask''" "pcmChunks asked_pcm = []" "wavChunks asked_pcm = []"
  "created asked_pcm = 0" "capturing asked_pcm = []" "intervals asked_pcm = []"
  "processor asked_pcm = None" "timer asked_pcm = None" "seconds asked_pcm = 0"
  by (simp_all add: asked_pcm_def loaded_pcm_def handleSelection_pcm_def resetChat_pcm_def
      addMessage_pcm_def)

lemma startRecording_pcm_started:
  assumes "selectedMode_pcm p = Some ''ask''"
  shows "startRecording_pcm True p =
    p\<lparr>processor := Some (created p), pcmChunks := [], wavChunks := [], seconds := 0,
      recordingBar_pcm := ''block'', voicePreview_pcm := ''none'', timer := Some (created p),
      intervals := intervals p @ [created p], capturing := capturing p @ [created p],
      created := created p + 1\<rparr>"
  using assms by (simp add: startRecording_pcm_def startRecording_pcm_resume_def)

lemma recording_live_eq:
  "startRecording_live True asked_live = (recording_live, Some 3)"
  "recording_live = (resetSpeechState asked_live)
       \<lparr>isRecording_live := True, recognizer := Some 0, recognizers := [Listening],
        recordingBar_live := Some ''block'', recordingTime_live := Some 0\<rparr>"
proof -
  have s: "startRecording_live True asked_live =
    ((resetSpeechState asked_live)
       \<lparr>isRecording_live := True, recognizer := Some 0, recognizers := [Listening],
        recordingBar_live := Some ''block'', recordingTime_live := Some 0\<rparr>,
     Some 3)"
    using startRecording_live_started [of asked_live True]
    by (simp add: asked_live_fields) (simp add: resetSpeechState_def clearInputHard_def asked_live_fields)
  then show "recording_live = (resetSpeechState asked_live)
       \<lparr>isRecording_live := True, recognizer := Some 0, recognizers := [Listening],
        recordingBar_live := Some ''block'', recordingTime_live := Some 0\<rparr>"
    by (simp add: recording_live_def)
  with s show "startRecording_live True asked_live = (recording_live, Some 3)" by simp
qed

lemma recording_live_fields:
  "isRecording_live recording_live" "speechSessionId recording_live = 3"
  "recognizer recording_live = Some 0" "recognizers recording_live = [Listening]"
  "selectedMode_live recording_live = Some ''ask''" "userInput_live recording_live = Some []"
  "recordingTime_live recording_live = Some 0"
  by (simp_all add: recording_live_eq(2) resetSpeechState_fields asked_live_fields)

lemma stopped_live_fields:
  "\<not> isRecording_live (stopRecording_live recording_live)"
  "speechSessionId (stopRecording_live recording_live) = 3"
  "recognizer (stopRecording_live recording_live) = Some 0"
  "recognizers (stopRecording_live recording_live) = [Stopped]"
  "selectedMode_live (stopRecording_live recording_live) = Some ''ask''"
  "userInput_live (stopRecording_live recording_live) = Some []"
  "recordingTime_live (stopRecording_live recording_live) = Some 0"
  by (simp_all add: stopRecording_live_def recording_live_fields rec_stop_def)

lemma restarted_live_eq:
  "startRecording_live True (stopRecording_live recording_live) = (restarted_live, Some 4)"
  using startRecording_live_started [of "stopRecording_live recording_live" True]
  by (simp add: restarted_live_def stopped_live_fields)

lemma restarted_live_fields:
  "isRecording_live restarted_live" "speechSessionId restarted_live = 4"
  "recognizer restarted_live = Some 1" "recognizers restarted_live = [Aborted, Listening]"
  "userInput_live restarted_live = Some []" "recordingTime_live restarted_live = Some 0"
proof -
  have e: "restarted_live = (resetSpeechState (stopRecording_live recording_live))
       \<lparr>isRecording_live := True, recognizer := Some 1,
        recognizers := recognizers (resetSpeechState (stopRecording_live recording_live)) @ [Listening],
        recordingBar_live := map_option (\<lambda>_. ''block'')
          (recordingBar_live (stopRecording_live recording_live)),
        recordingTime_live := Some 0\<rparr>"
    using startRecording_live_started [of "stopRecording_live recording_live" True]
    by (simp add: restarted_live_def stopped_live_fields)
  have r: "recognizers (resetSpeechState (stopRecording_live recording_live)) = [Aborted]"
    by (simp add: resetSpeechState_def clearInputHard_def stopped_live_fields rec_abort_def rec_stop_def)
  show "isRecording_live restarted_live" "speechSessionId restarted_live = 4"
    "recognizer restarted_live = Some 1" "recognizers restarted_live = [Aborted, Listening]"
    "userInput_live restarted_live = Some []" "recordingTime_live restarted_live = Some 0"
    by (simp_all add: e r resetSpeechState_fields stopped_live_fields)
qed

subsection \<open>Truncation toward zero, pinned down\<close>

lemma truncated_toward_zero_iff: "truncated_toward_zero y r \<longleftrightarrow> r = trunc_toward_zero y"
proof (cases "0 \<le> y")
  case True
  show ?thesis
  proof
    assume t: "truncated_toward_zero y r"
    have "0 \<le> r"
    proof (rule ccontr)
      assume "\<not> 0 \<le> r"
      then have neg: "(of_int r :: rat) < 0" by simp
      from t have "0 \<le> of_int r * y" by (simp add: truncated_toward_zero_def)
      with neg True have "y = 0" by (auto simp add: zero_le_mult_iff)
      with t have "\<bar>of_int r :: rat\<bar> \<le> 0" by (simp add: truncated_toward_zero_def)
      with neg show False by simp
    qed
    then have "\<bar>of_int r :: rat\<bar> = of_int r" by simp
    with t True have "of_int r \<le> y" "y < of_int r + 1"
      by (simp_all add: truncated_toward_zero_def)
    then have "\<lfloor>y\<rfloor> = r" by (rule floor_unique)
    then show "r = trunc_toward_zero y" using True by (simp add: trunc_toward_zero_def)
  next
    assume "r = trunc_toward_zero y"
    then have r: "r = \<lfloor>y\<rfloor>" using True by (simp add: trunc_toward_zero_def)
    have "0 \<le> \<lfloor>y\<rfloor>" using True by simp
    then have "\<bar>of_int \<lfloor>y\<rfloor> :: rat\<bar> = of_int \<lfloor>y\<rfloor>" by simp
    moreover have "of_int \<lfloor>y\<rfloor> \<le> y" "y < of_int \<lfloor>y\<rfloor> + 1" by linarith+
    moreover have "(0 :: rat) \<le> of_int \<lfloor>y\<rfloor>" using \<open>0 \<le> \<lfloor>y\<rfloor>\<close> by simp
    ultimately show "truncated_toward_zero y r"
      using True by (simp add: truncated_toward_zero_def r)
  qed
next
  case False
  then have y: "y < 0" by simp
  show ?thesis
  proof
    assume t: "truncated_toward_zero y r"
    have "r \<le> 0"
    proof (rule ccontr)
      assume "\<not> r \<le> 0"
      then have "(0 :: rat) < of_int r" by simp
      with y have "of_int r * y < 0" by (simp add: mult_pos_neg)
      with t show False by (simp add: truncated_toward_zero_def)
    qed
    then have "\<bar>of_int r :: rat\<bar> = - of_int r" by simp
    with t y have "of_int (- r) \<le> - y" "- y < of_int (- r) + 1"
      by (simp_all add: truncated_toward_zero_def)
    then have "\<lfloor>- y\<rfloor> = - r" by (rule floor_unique)
    then show "r = trunc_toward_zero y" using False by (simp add: trunc_toward_zero_def)
  next
    assume "r = trunc_toward_zero y"
    then have r: "r = - \<lfloor>- y\<rfloor>" using False by (simp add: trunc_toward_zero_def)
    have nn: "0 \<le> \<lfloor>- y\<rfloor>" using y by simp
    then have a: "\<bar>of_int (- \<lfloor>- y\<rfloor>) :: rat\<bar> = of_int \<lfloor>- y\<rfloor>" by simp
    have b: "of_int \<lfloor>- y\<rfloor> \<le> - y" "- y < of_int \<lfloor>- y\<rfloor> + 1" by linarith+
    have "(0 :: rat) \<le> of_int \<lfloor>- y\<rfloor>" using nn by simp
    moreover have "0 \<le> - y" using y by simp
    ultimately have "0 \<le> of_int \<lfloor>- y\<rfloor> * (- y)" by (rule mult_nonneg_nonneg)
    then have c: "(0 :: rat) \<le> of_int (- \<lfloor>- y\<rfloor>) * y" by simp
    have "\<bar>y\<bar> = - y" using y by simp
    with a b c show "truncated_toward_zero y r"
      unfolding truncated_toward_zero_def r by simp
  qed
qed

lemma saturate_and_round_iff: "saturate_and_round x r \<longleftrightarrow> r = sint (pcm16_sample x)"
proof -
  have "\<bar>max (- 1) (min 1 x) * 32767\<bar> \<le> 32767" by (auto simp: abs_le_iff)
  from trunc_toward_zero_bounds [OF this]
  show ?thesis
    by (auto simp add: saturate_and_round_def truncated_toward_zero_iff sint_pcm16_sample)
qed

subsection \<open>Every page the PCM variant can reach\<close>







section \<open>The claims\<close>

subsection \<open>C1\<close>

text \<open>
  Claim C1 does not hold as stated: the PCM variant has no session token. After a second
  click on the microphone while the first capture runs, the first capture graph is still
  connected, and a frame it delivers is appended to the buffer of the second recording.
\<close>

theorem C1_pcm_counterexample:
  "processor (startRecording_pcm True (startRecording_pcm True asked_pcm)) = Some 1
    \<and> capturing (startRecording_pcm True (startRecording_pcm True asked_pcm)) = [0, 1]
    \<and> pcmChunks (startRecording_pcm True (startRecording_pcm True asked_pcm)) = []
    \<and> pcmChunks (audio_frame 0 [1 / 2] (startRecording_pcm True (startRecording_pcm True asked_pcm)))
        = [[0xFF, 0x3F]]"
proof -
  have v: "Uint8Array_of [pcm16_sample (1 / 2)] = [0xFF, 0x3F]" by code_simp
  have a: "selectedMode_pcm (startRecording_pcm True asked_pcm) = Some ''ask''"
    by (simp add: startRecording_pcm_started asked_pcm_fields)
  show ?thesis
    by (simp add: startRecording_pcm_started [OF a] startRecording_pcm_started asked_pcm_fields
        audio_frame_def onaudioprocess_def v)
qed

text \<open>
  Claim C1 as amended. In the live variant with a session id, the result handler and
  the interval callback that \<^verbatim>\<open>startRecording\<close> registers carry the id of their session and
  do nothing when it differs from the live id. No event lowers the id and every start
  that opens a session raises it: once a second session has been started, after any
  events at all, the callbacks of the first leave the page exactly as it is, whatever has
  happened since.
  (The error handler tests nothing; the amended claim says nothing about it.) The PCM
  variant has no token: its frame handler appends to both buffers and its interval
  callback counts, unconditionally.
\<close>

theorem C1_stale_callbacks:
  assumes "startRecording_live supported st0 = (stA, Some a)"
    and "startRecording_live supported (live_run supported stA events) = (stB, Some b)"
  shows "a = speechSessionId stA
    \<and> b = speechSessionId stB
    \<and> a < b
    \<and> b \<le> speechSessionId (live_run supported stB events')
    \<and> onresult_live a event (live_run supported stB events') = live_run supported stB events'
    \<and> timer_tick_live a secs (live_run supported stB events')
        = (live_run supported stB events', None)
    \<and> pcmChunks (onaudioprocess data p) = pcmChunks p @ [Uint8Array_of (map pcm16_sample data)]
    \<and> wavChunks (onaudioprocess data p) = wavChunks p @ [map pcm16_sample data]
    \<and> seconds (timer_tick_pcm p) = seconds p + 1"
proof -
  have a: "a = speechSessionId stA" using assms(1) by (rule startRecording_live_token)
  also have "\<dots> \<le> speechSessionId (live_run supported stA events)" by (rule token_mono_run)
  also have "\<dots> < speechSessionId stB"
    using startRecording_live_token(2) [OF assms(2)] by simp
  finally have "a < speechSessionId stB" .
  moreover have b: "b = speechSessionId stB" using assms(2) by (rule startRecording_live_token)
  moreover have "speechSessionId stB \<le> speechSessionId (live_run supported stB events')"
    by (rule token_mono_run)
  ultimately have lt: "a < b" and le: "b \<le> speechSessionId (live_run supported stB events')"
    and ne: "a \<noteq> speechSessionId (live_run supported stB events')"
    by simp_all
  show ?thesis
    using a b lt le stale_callbacks_gated [OF ne]
    by (simp add: onaudioprocess_def Let_def timer_tick_pcm_def)
qed

theorem C1_stale_callbacks_witness:
  "startRecording_live True asked_live = (recording_live, Some 3)
    \<and> startRecording_live True (live_run True recording_live [ClickStop]) = (restarted_live, Some 4)
    \<and> (3 :: nat) < 4
    \<and> userInput_live (live_run True restarted_live
          [ResultFired 4 \<lparr>resultIndex = 0, results = [(''new'', False)]\<rparr>]) = Some ''new''
    \<and> userInput_live (onresult_live 3 \<lparr>resultIndex = 0, results = [(''stale'', False)]\<rparr>
          (live_run True restarted_live
            [ResultFired 4 \<lparr>resultIndex = 0, results = [(''new'', False)]\<rparr>])) = Some ''new''
    \<and> snd (timer_tick_live 3 7 (live_run True restarted_live
          [ResultFired 4 \<lparr>resultIndex = 0, results = [(''new'', False)]\<rparr>])) = None
    \<and> recordingTime_live (fst (timer_tick_live 3 7 (live_run True restarted_live
          [ResultFired 4 \<lparr>resultIndex = 0, results = [(''new'', False)]\<rparr>]))) = Some 0"
proof -
  let ?final = "live_run True restarted_live
    [ResultFired 4 \<lparr>resultIndex = 0, results = [(''new'', False)]\<rparr>]"
  have A: "startRecording_live True asked_live = (recording_live, Some 3)"
    by (rule recording_live_eq)
  have B: "startRecording_live True (live_run True recording_live [ClickStop]) = (restarted_live, Some 4)"
    by (simp add: live_run_def restarted_live_eq)
  have f: "userInput_live ?final = Some ''new''" "recordingTime_live ?final = Some 0"
    by (simp_all add: live_run_def onresult_live_def restarted_live_fields Let_def trim_def is_space_def)
  note t = C1_stale_callbacks [OF A B,
      of "[ResultFired 4 \<lparr>resultIndex = 0, results = [(''new'', False)]\<rparr>]"
         "\<lparr>resultIndex = 0, results = [(''stale'', False)]\<rparr>" 7]
  from t f show ?thesis
    using A B by simp
qed

subsection \<open>C2\<close>

text \<open>
  Claim C2. \<^verbatim>\<open>onaudioprocess\<close> turns every sample \<open>x\<close> into the saturate-and-round value
  of the specification: a signed 16-bit integer with the sign of \<open>clamp(x, -1, 1) * 32767\<close>,
  of magnitude at most that product's and less than one below it (for \<open>x\<close> in \<open>[-1, 1]\<close>
  the product is \<open>x * 32767\<close>); no other integer is that value. After a recording is started
  and any frames are delivered, the merge of \<^verbatim>\<open>sendVoice\<close> succeeds and yields the chunks'
  bytes in order: exactly two bytes per sample, which decode as little-endian 16-bit
  integers, one for one and in arrival order, to the saturate-and-round values of the
  samples.
\<close>

theorem C2_append_merge_decodes:
  fixes st :: pcm_page and frames :: "rat list list"
  defines "st' \<equiv>
    record_frames frames (startRecording_pcm True (st\<lparr>selectedMode_pcm := Some ''ask''\<rparr>))"
  shows "saturate_and_round x (sint (pcm16_sample x))
    \<and> (\<forall>r. saturate_and_round x r \<longrightarrow> r = sint (pcm16_sample x))
    \<and> (- 1 \<le> x \<and> x \<le> 1 \<longrightarrow> truncated_toward_zero (x * 32767) (sint (pcm16_sample x)))
    \<and> sint (pcm16_sample x) = trunc_toward_zero (max (- 1) (min 1 x) * 32767)
    \<and> merge_chunks (pcmChunks st') = Some (concat (pcmChunks st'))
    \<and> length (concat (pcmChunks st')) = 2 * length (concat frames)
    \<and> decode_le16 (concat (pcmChunks st')) = map pcm16_sample (concat frames)
    \<and> list_all2 (\<lambda>w sample. saturate_and_round sample (sint w))
          (decode_le16 (concat (pcmChunks st'))) (concat frames)"
proof -
  have p: "pcmChunks st' = map Uint8Array_of (map (map pcm16_sample) frames)"
    by (simp add: st'_def chunks_record_frames startRecording_pcm_def startRecording_pcm_resume_def)
  have c: "concat (pcmChunks st') = concat (map le16 (map pcm16_sample (concat frames)))"
    by (simp only: p concat_Uint8Array_of map_concat [symmetric])
  have l: "length (concat (pcmChunks st')) = 2 * length (concat frames)"
    using length_concat_le16 [of "map pcm16_sample (concat frames)"] by (simp only: c length_map)
  have d: "decode_le16 (concat (pcmChunks st')) = map pcm16_sample (concat frames)"
    using decode_le16_bytes [of "map pcm16_sample (concat frames)"] by (simp only: c)
  have s: "saturate_and_round y (sint (pcm16_sample y))" for y
    by (simp add: saturate_and_round_iff)
  have u: "\<forall>r. saturate_and_round x r \<longrightarrow> r = sint (pcm16_sample x)"
    by (simp add: saturate_and_round_iff)
  have i: "truncated_toward_zero (x * 32767) (sint (pcm16_sample x))" if "- 1 \<le> x" "x \<le> 1"
  proof -
    have "max (- 1) (min 1 x) = x" using that by simp
    with s [of x] show ?thesis by (simp add: saturate_and_round_def)
  qed
  have a: "list_all2 (\<lambda>w sample. saturate_and_round sample (sint w))
      (decode_le16 (concat (pcmChunks st'))) (concat frames)"
    unfolding d by (simp add: list_all2_map1 list_all2_same s)
  show ?thesis
  proof (intro conjI)
    show "saturate_and_round x (sint (pcm16_sample x))" by (rule s)
    show "\<forall>r. saturate_and_round x r \<longrightarrow> r = sint (pcm16_sample x)" by (rule u)
    show "- 1 \<le> x \<and> x \<le> 1 \<longrightarrow> truncated_toward_zero (x * 32767) (sint (pcm16_sample x))"
      using i by blast
    show "sint (pcm16_sample x) = trunc_toward_zero (max (- 1) (min 1 x) * 32767)"
      by (rule sint_pcm16_sample)
    show "merge_chunks (pcmChunks st') = Some (concat (pcmChunks st'))"
      by (rule merge_chunks_concat)
    show "length (concat (pcmChunks st')) = 2 * length (concat frames)" by (rule l)
    show "decode_le16 (concat (pcmChunks st')) = map pcm16_sample (concat frames)" by (rule d)
    show "list_all2 (\<lambda>w sample. saturate_and_round sample (sint w))
        (decode_le16 (concat (pcmChunks st'))) (concat frames)" by (rule a)
  qed
qed

theorem C2_append_merge_decodes_witness:
  "saturate_and_round (- (3 / 4)) (- 24575)
    \<and> \<not> saturate_and_round (- (3 / 4)) (- 24576)
    \<and> sint (pcm16_sample (- (3 / 4))) = - 24575
    \<and> (- 1 :: rat) \<le> - (3 / 4) \<and> (- (3 / 4) :: rat) \<le> 1
    \<and> truncated_toward_zero (- (3 / 4) * 32767) (- 24575)
    \<and> decode_le16 (concat (pcmChunks (record_frames [[- (3 / 4), 1 / 2], [1]]
          (startRecording_pcm True (loaded_pcm\<lparr>selectedMode_pcm := Some ''ask''\<rparr>)))))
        = [0xA001, 0x3FFF, 0x7FFF]
    \<and> length (concat (pcmChunks (record_frames [[- (3 / 4), 1 / 2], [1]]
          (startRecording_pcm True (loaded_pcm\<lparr>selectedMode_pcm := Some ''ask''\<rparr>))))) = 6"
proof -
  let ?st' = "record_frames [[- (3 / 4), 1 / 2], [1]]
    (startRecording_pcm True (loaded_pcm\<lparr>selectedMode_pcm := Some ''ask''\<rparr>))"
  note t = C2_append_merge_decodes [of "- (3 / 4)" "[[- (3 / 4), 1 / 2], [1]]" loaded_pcm]
  have t2: "\<forall>r. saturate_and_round (- (3 / 4)) r \<longrightarrow> r = sint (pcm16_sample (- (3 / 4)))"
    using t by (elim conjE) assumption
  have t3: "- 1 \<le> (- (3 / 4) :: rat) \<and> (- (3 / 4) :: rat) \<le> 1
      \<longrightarrow> truncated_toward_zero (- (3 / 4) * 32767) (sint (pcm16_sample (- (3 / 4))))"
    using t by (elim conjE) assumption
  have t6: "length (concat (pcmChunks ?st')) = 2 * length (concat [[- (3 / 4), 1 / 2], [1 :: rat]])"
    using t by (elim conjE) assumption
  have t7: "decode_le16 (concat (pcmChunks ?st')) = map pcm16_sample (concat [[- (3 / 4), 1 / 2], [1]])"
    using t by (elim conjE) assumption
  have a: "saturate_and_round (- (3 / 4)) (- 24575)"
    by (simp add: saturate_and_round_def truncated_toward_zero_def)
  have v: "sint (pcm16_sample (- (3 / 4))) = - 24575"
    using t2 [rule_format, OF a] by simp
  have n: "\<not> saturate_and_round (- (3 / 4)) (- 24576)"
  proof
    assume "saturate_and_round (- (3 / 4)) (- 24576)"
    from t2 [rule_format, OF this] v show False by simp
  qed
  have r: "- 1 \<le> (- (3 / 4) :: rat)" "(- (3 / 4) :: rat) \<le> 1" by simp_all
  have i: "truncated_toward_zero (- (3 / 4) * 32767) (- 24575)"
    using t3 r v by simp
  have w: "pcm16_sample (- (3 / 4)) = 0xA001" "pcm16_sample (1 / 2) = 0x3FFF"
    "pcm16_sample 1 = 0x7FFF" by code_simp+
  have d: "decode_le16 (concat (pcmChunks ?st')) = [0xA001, 0x3FFF, 0x7FFF]"
    using t7 by (simp add: w)
  have l: "length (concat (pcmChunks ?st')) = 6"
    using t6 by simp
  from a n v r i d l show ?thesis by (simp only: simp_thms)
qed

subsection \<open>C3\<close>

text \<open>
  Claim C3. \<^verbatim>\<open>createWavBlob\<close> is a function of its two arguments alone, every write
  stays inside the buffer, and the result is the layout of the specification: 44 header
  bytes and the samples, little-endian, in chunk order. Read back, bytes 4-7 hold
  \<open>36 + dataBytes\<close> and bytes 40-43 hold \<open>dataBytes\<close> as 32-bit values (the numbers
  themselves whenever they fit the four bytes), the format tag and the channel count are
  1, the byte rate is \<open>sampleRate * 2\<close>, the block align 2, the sample width 16. With no
  chunk at all the result is the bare header.
\<close>

theorem C3_wav_encoder_layout:
  fixes chunks :: "int16 list list" and rate :: nat
  defines "dataBytes \<equiv> 2 * length (concat chunks)"
  defines "wav \<equiv> WavContainer chunks rate"
  shows "createWavBlob chunks rate = Some wav
    \<and> length wav = 44 + dataBytes
    \<and> take 4 wav = ascii ''RIFF''
    \<and> u32_at 4 wav = of_nat (36 + dataBytes)
    \<and> unat (u32_at 4 wav) = (36 + dataBytes) mod 2 ^ 32
    \<and> take 8 (drop 8 wav) = ascii ''WAVEfmt ''
    \<and> u32_at 16 wav = 16
    \<and> u16_at 20 wav = 1
    \<and> u16_at 22 wav = 1
    \<and> u32_at 24 wav = of_nat rate
    \<and> u32_at 28 wav = of_nat (rate * 2)
    \<and> u16_at 32 wav = 2
    \<and> u16_at 34 wav = 16
    \<and> take 4 (drop 36 wav) = ascii ''data''
    \<and> u32_at 40 wav = of_nat dataBytes
    \<and> unat (u32_at 40 wav) = dataBytes mod 2 ^ 32
    \<and> drop 44 wav = concat (map le16 (concat chunks))
    \<and> decode_le16 (drop 44 wav) = concat chunks
    \<and> createWavBlob [] rate = Some (wav_header 0 rate)"
proof -
  have w: "wav = wav_header dataBytes rate @ concat (map le16 (concat chunks))"
    by (simp add: wav_def WavContainer_def dataBytes_def)
  have "createWavBlob chunks rate = Some wav"
    by (simp add: wav_def createWavBlob_layout)
  moreover have "length wav = 44 + dataBytes"
    by (simp add: w length_wav_header length_concat_le16 dataBytes_def)
  moreover have u: "unat (of_nat n :: 32 word) = n mod 2 ^ 32" for n
    by (simp add: unat_of_nat)
  have "unat (u32_at 4 wav) = (36 + dataBytes) mod 2 ^ 32"
    "unat (u32_at 40 wav) = dataBytes mod 2 ^ 32"
    by (simp_all only: w wav_fields u)
  moreover have "decode_le16 (drop 44 wav) = concat chunks"
    by (simp only: w wav_fields decode_le16_bytes)
  moreover have "createWavBlob [] rate = Some (wav_header 0 rate)"
    using createWavBlob_layout [of "[]" rate] by (simp add: WavContainer_def)
  ultimately show ?thesis
    by (simp only: w wav_fields simp_thms)
qed

subsection \<open>C4\<close>

text \<open>
  Claim C4. Whatever positive chunk size the loop of \<^verbatim>\<open>uint8ToBase64\<close> uses, it returns,
  and what it returns is \<^verbatim>\<open>btoa\<close> of the whole buffer turned into one string; the script's
  encoder (chunk size \<open>0x8000\<close>) agrees with each of them, and standard Base64 decoding of
  its output gives the buffer back.
\<close>

theorem C4_transport_encoder_roundtrip:
  assumes "0 < CHUNK_SIZE"
  shows "uint8ToBase64_chunked CHUNK_SIZE u8Arr = btoa (fromCharCode u8Arr)
    \<and> uint8ToBase64 u8Arr = uint8ToBase64_chunked CHUNK_SIZE u8Arr
    \<and> (uint8ToBase64 u8Arr \<bind> b64_decode) = Some u8Arr"
  using assms
  by (simp add: uint8ToBase64_eq uint8ToBase64_chunked_eq btoa_fromCharCode b64_decode_encode)

theorem C4_transport_encoder_roundtrip_witness:
  "(0 :: nat) < 2
    \<and> uint8ToBase64_chunked 2 [77, 97, 110, 33, 255] = Some ''TWFuIf8=''
    \<and> uint8ToBase64 [77, 97, 110, 33, 255] = Some ''TWFuIf8=''
    \<and> b64_decode ''TWFuIf8='' = Some [77, 97, 110, 33, 255]"
proof -
  have e: "btoa (fromCharCode [77, 97, 110, 33, 255]) = Some ''TWFuIf8=''"
    by code_simp
  have p: "(0 :: nat) < 2" by simp
  note t = C4_transport_encoder_roundtrip [OF p, of "[77, 97, 110, 33, 255]"]
  from t e have a: "uint8ToBase64_chunked 2 [77, 97, 110, 33, 255] = Some ''TWFuIf8=''"
    by (simp only:)
  from t a have b: "uint8ToBase64 [77, 97, 110, 33, 255] = Some ''TWFuIf8=''"
    by (simp only:)
  from t b have "b64_decode ''TWFuIf8='' = Some [77, 97, 110, 33, 255]"
    by (simp only: Option.bind.simps)
  with p a b show ?thesis by (simp only: simp_thms)
qed

subsection \<open>C5\<close>

text \<open>
  Claim C5 does not hold as stated. In the variant that keeps a committed transcript
  (lines 1-229, which has no session token: every result event is handled), an event with
  two entries that are not yet final shows both texts, one after the other, where the
  claim keeps the last only; and \<^verbatim>\<open>stopRecording\<close> leaves the field alone while nothing has
  been committed, so a partial guess stays in it.
\<close>

theorem C5_pending_counterexample:
  "userInput_acc (onresult_acc \<lparr>resultIndex = 0, results = [(''hel'', False), (''lo'', False)]\<rparr>
      (startRecording_acc True (handleSelection_acc ''ask'' loaded_acc))) = Some ''hello''
   \<and> trim (liveTranscript (onresult_acc \<lparr>resultIndex = 0, results = [(''hel'', False), (''lo'', False)]\<rparr>
        (startRecording_acc True (handleSelection_acc ''ask'' loaded_acc)))
      @ pending_per_spec [] [(''hel'', False), (''lo'', False)]) = ''lo''
   \<and> userInput_acc (stopRecording_acc (onresult_acc \<lparr>resultIndex = 0, results = [(''hel'', False)]\<rparr>
        (startRecording_acc True (handleSelection_acc ''ask'' loaded_acc)))) = Some ''hel''
   \<and> trim (liveTranscript (stopRecording_acc (onresult_acc \<lparr>resultIndex = 0, results = [(''hel'', False)]\<rparr>
        (startRecording_acc True (handleSelection_acc ''ask'' loaded_acc))))) = []"
  by (simp add: onresult_acc_def stopRecording_acc_def startRecording_acc_def handleSelection_acc_def
      loaded_acc_def resetChat_acc_def addMessage_acc_def pending_per_spec_def trim_simps Let_def)

text \<open>
  Claim C5 as amended. For every result event, with \<open>entries\<close> the entries from
  \<^verbatim>\<open>resultIndex\<close> on: the text of each final entry, followed by a space, is appended to the
  committed transcript, in order; the pending text is rebuilt from nothing as the texts of
  all entries that are not yet final, one after the other; the field shows committed
  followed by pending, trimmed. \<^verbatim>\<open>stopRecording\<close> on a page that is recording keeps the
  committed transcript and sets the field to it, trimmed, when it is not empty; when it is
  empty the field keeps what it shows.
\<close>

theorem C5_transcript_accumulator:
  fixes event :: speech_event and st :: acc_page
  defines "entries \<equiv> drop (resultIndex event) (results event)"
  defines "st' \<equiv> onresult_acc event st"
  shows "liveTranscript st' = liveTranscript st
        @ concat (map (\<lambda>(txt, isFinal). txt @ '' '') (filter (\<lambda>(txt, isFinal). isFinal) entries))
    \<and> userInput_acc st' = map_option
        (\<lambda>_. trim (liveTranscript st'
           @ concat (map fst (filter (\<lambda>(txt, isFinal). \<not> isFinal) entries))))
        (userInput_acc st)
    \<and> liveTranscript (stopRecording_acc st) = liveTranscript st
    \<and> userInput_acc (stopRecording_acc st) =
        (if isRecording_acc st \<and> liveTranscript st \<noteq> []
         then map_option (\<lambda>_. trim (liveTranscript st)) (userInput_acc st)
         else userInput_acc st)"
  by (simp add: st'_def entries_def onresult_acc_def stopRecording_acc_def result_loop_eq Let_def)

subsection \<open>C6\<close>



subsection \<open>C7\<close>

text \<open>
  Claim C7. \<^verbatim>\<open>sendVoice\<close> on a page with no recorded chunk shows one notice and does
  nothing else: the page is the page before with that message added, no request is in
  flight and the log of requests is as it was, whatever the network would have answered.
  The live variant does the same when the text field holds nothing but white space.
\<close>

theorem C7_send_empty_recording:
  "(pcmChunks st = [] \<longrightarrow>
        sendVoice_pcm_begin st = (st\<lparr>chatBody_pcm := chatBody_pcm st @ [(Bot, msg_no_audio)]\<rparr>, None)
      \<and> sendVoice_pcm response st = st\<lparr>chatBody_pcm := chatBody_pcm st @ [(Bot, msg_no_audio)]\<rparr>
      \<and> fetched_pcm (sendVoice_pcm response st) = fetched_pcm st)
    \<and> (userInput_live page = Some v \<and> trim v = [] \<longrightarrow>
        sendVoice_live_begin page
          = (page\<lparr>chatBody_live :=
                map_option (\<lambda>msgs. msgs @ [(Bot, msg_no_speech)]) (chatBody_live page)\<rparr>, None)
      \<and> fetched_live (fst (sendVoice_live_begin page)) = fetched_live page)"
  by (simp add: sendVoice_pcm_def sendVoice_pcm_begin_def sendVoice_live_begin_def
      addMessage_pcm_def addMessage_live_def nl2br_msgs Let_def)

theorem C7_send_empty_recording_witness:
  "pcmChunks loaded_pcm = []
    \<and> sendVoice_pcm (SpeechReply None (Some ''hi'')) loaded_pcm
        = loaded_pcm\<lparr>chatBody_pcm := [(Bot, ''Hey! I'm OlyphAI. How can I help you today?''),
            (Bot, ''No audio recorded.'')]\<rparr>
    \<and> fetched_pcm (sendVoice_pcm (SpeechReply None (Some ''hi'')) loaded_pcm) = []
    \<and> userInput_live (loaded_live\<lparr>userInput_live := Some ''  ''\<rparr>) = Some ''  ''
    \<and> trim ''  '' = []
    \<and> snd (sendVoice_live_begin (loaded_live\<lparr>userInput_live := Some ''  ''\<rparr>)) = None
    \<and> chatBody_live (fst (sendVoice_live_begin (loaded_live\<lparr>userInput_live := Some ''  ''\<rparr>)))
        = Some [(Bot, ''Hey! I'm OlyphAI. How can I help you today?''),
            (Bot, ''No speech detected.'')]
    \<and> fetched_live (fst (sendVoice_live_begin (loaded_live\<lparr>userInput_live := Some ''  ''\<rparr>))) = []"
proof -
  have p: "pcmChunks loaded_pcm = []" "fetched_pcm loaded_pcm = []"
    "chatBody_pcm loaded_pcm = [(Bot, ''Hey! I'm OlyphAI. How can I help you today?'')]"
    by (simp_all add: loaded_pcm_def resetChat_pcm_def addMessage_pcm_def nl2br_def msg_welcome_def)
  have l: "userInput_live (loaded_live\<lparr>userInput_live := Some ''  ''\<rparr>) = Some ''  ''"
    "trim ''  '' = []"
    "chatBody_live (loaded_live\<lparr>userInput_live := Some ''  ''\<rparr>)
      = Some [(Bot, ''Hey! I'm OlyphAI. How can I help you today?'')]"
    "fetched_live (loaded_live\<lparr>userInput_live := Some ''  ''\<rparr>) = []"
    by (simp_all add: loaded_live_def resetChat_live_def resetSpeechState_def clearInputHard_def
        addMessage_live_def nl2br_def msg_welcome_def trim_def is_space_def)
  note t = C7_send_empty_recording [of loaded_pcm "SpeechReply None (Some ''hi'')"
      "loaded_live\<lparr>userInput_live := Some ''  ''\<rparr>" "''  ''"]
  from t p l show ?thesis
    by (simp add: msg_no_audio_def msg_no_speech_def)
qed

subsection \<open>C8\<close>



subsection \<open>C9\<close>

text \<open>
  Claim C9 does not hold as stated: \<^verbatim>\<open>startRecording\<close> of the live variant begins with
  \<^verbatim>\<open>if (isRecording) return\<close>. On a page that is recording, a second call changes
  nothing: the session id stays, and the recognizer keeps listening.
\<close>

theorem C9_restart_counterexample:
  "isRecording_live recording_live
    \<and> speechSessionId recording_live = 3
    \<and> speechSessionId (fst (startRecording_live True recording_live)) = 3
    \<and> recognizer (fst (startRecording_live True recording_live)) = Some 0
    \<and> recognizers (fst (startRecording_live True recording_live)) = [Listening]"
  using recording_live_fields
  by (simp add: startRecording_live_recording [OF recording_live_fields(1)])

text \<open>
  Claim C9 as amended. On a page that is recording, \<^verbatim>\<open>startRecording\<close> does nothing at
  all. On a page that is not recording, in chat mode and with a recognition backend, it
  first runs the hard reset: the session id goes up by one, the recognizer the page
  still refers to (one that \<^verbatim>\<open>stopRecording\<close> left behind, say) is aborted and dropped,
  the text field is emptied; then it opens the new session on a fresh recognizer.
\<close>

theorem C9_start_resets_unless_recording:
  "(isRecording_live st \<longrightarrow> startRecording_live supported st = (st, None))
   \<and> (\<not> isRecording_live st \<and> selectedMode_live st = Some ''ask'' \<and> supported \<longrightarrow>
        fst (startRecording_live supported st)
          = (resetSpeechState st)
              \<lparr>isRecording_live := True,
               recognizer := Some (length (recognizers st)),
               recognizers := recognizers (resetSpeechState st) @ [Listening],
               recordingBar_live := map_option (\<lambda>_. ''block'') (recordingBar_live st),
               recordingTime_live := map_option (\<lambda>_. 0) (recordingTime_live st)\<rparr>
      \<and> speechSessionId (fst (startRecording_live supported st)) = speechSessionId st + 1
      \<and> userInput_live (fst (startRecording_live supported st))
          = map_option (\<lambda>_. []) (userInput_live st)
      \<and> recognizer (fst (startRecording_live supported st)) = Some (length (recognizers st))
      \<and> (\<forall>r. recognizer st = Some r \<and> r < length (recognizers st) \<longrightarrow>
            recognizers (fst (startRecording_live supported st)) ! r = Aborted))"
proof -
  have "startRecording_live supported st = (st, None)" if "isRecording_live st"
    using that by (rule startRecording_live_recording)
  moreover have "recognizers (fst (startRecording_live supported st)) ! r = Aborted"
    if "\<not> isRecording_live st" "selectedMode_live st = Some ''ask''" "supported"
      "recognizer st = Some r" "r < length (recognizers st)" for r
    using startRecording_live_started [OF that(1-3)] resetSpeechState_aborts [OF that(4,5)] that(5)
    by (simp add: nth_append resetSpeechState_fields)
  moreover have "fst (startRecording_live supported st)
          = (resetSpeechState st)
              \<lparr>isRecording_live := True,
               recognizer := Some (length (recognizers st)),
               recognizers := recognizers (resetSpeechState st) @ [Listening],
               recordingBar_live := map_option (\<lambda>_. ''block'') (recordingBar_live st),
               recordingTime_live := map_option (\<lambda>_. 0) (recordingTime_live st)\<rparr>
      \<and> speechSessionId (fst (startRecording_live supported st)) = speechSessionId st + 1
      \<and> userInput_live (fst (startRecording_live supported st))
          = map_option (\<lambda>_. []) (userInput_live st)
      \<and> recognizer (fst (startRecording_live supported st)) = Some (length (recognizers st))"
    if "\<not> isRecording_live st" "selectedMode_live st = Some ''ask''" "supported"
    using startRecording_live_started [OF that]
    by (simp add: resetSpeechState_fields)
  ultimately show ?thesis by blast
qed

theorem C9_start_resets_unless_recording_witness:
  "isRecording_live recording_live
    \<and> startRecording_live True recording_live = (recording_live, None)
    \<and> \<not> isRecording_live (stopRecording_live recording_live)
    \<and> selectedMode_live (stopRecording_live recording_live) = Some ''ask''
    \<and> recognizer (stopRecording_live recording_live) = Some 0
    \<and> recognizers (stopRecording_live recording_live) = [Stopped]
    \<and> speechSessionId (stopRecording_live recording_live) = 3
    \<and> speechSessionId restarted_live = 4
    \<and> recognizer restarted_live = Some 1
    \<and> recognizers restarted_live ! 0 = Aborted
    \<and> userInput_live restarted_live = Some []"
proof -
  note t1 = C9_start_resets_unless_recording [of recording_live True]
  note t2 = C9_start_resets_unless_recording [of "stopRecording_live recording_live" True]
  from t1 have a: "startRecording_live True recording_live = (recording_live, None)"
    by (simp add: recording_live_fields)
  have h: "\<not> isRecording_live (stopRecording_live recording_live)
      \<and> selectedMode_live (stopRecording_live recording_live) = Some ''ask'' \<and> True"
    "recognizer (stopRecording_live recording_live) = Some 0
      \<and> 0 < length (recognizers (stopRecording_live recording_live))"
    by (simp_all add: stopped_live_fields)
  from t2 h have "speechSessionId restarted_live
        = speechSessionId (stopRecording_live recording_live) + 1"
    and "recognizer restarted_live = Some (length (recognizers (stopRecording_live recording_live)))"
    and "recognizers restarted_live ! 0 = Aborted"
    and "userInput_live restarted_live
        = map_option (\<lambda>_. []) (userInput_live (stopRecording_live recording_live))"
    unfolding restarted_live_def by blast+
  then have b: "speechSessionId restarted_live = 4" "recognizer restarted_live = Some 1"
    "recognizers restarted_live ! 0 = Aborted" "userInput_live restarted_live = Some []"
    by (simp_all add: stopped_live_fields)
  show ?thesis
    using a b by (simp add: recording_live_fields stopped_live_fields)
qed

subsection \<open>C10\<close>




end
